theory Spec2Isabelle
  imports Complex_Main "HOL-Library.Word"
begin

section \<open>Byte strings and the library calls used by the range codec\<close>

text \<open>
  Go strings and byte slices are sequences of bytes; a \<^typ>\<open>string\<close> is a list of
  8-bit characters and models both. The errors the program can return are values.
\<close>

datatype error =
    BadRange string
  | ErrSyntax string
  | ErrRange string
  | ErrDropAttribute
  | ErrNotFoundInMap string

text \<open>\<open>bytes.Trim(data, cutset)\<close> for an ASCII cutset: drop the cutset bytes at both ends.\<close>

definition bytesTrim :: "string \<Rightarrow> string \<Rightarrow> string" where
  "bytesTrim cutset s =
     rev (dropWhile (\<lambda>c. c \<in> set cutset) (rev (dropWhile (\<lambda>c. c \<in> set cutset) s)))"

text \<open>\<open>bytes.Split(s, sep)\<close> for a one-byte separator: every occurrence splits.\<close>

fun bytesSplit :: "char \<Rightarrow> string \<Rightarrow> string list" where
  "bytesSplit sep [] = [[]]"
| "bytesSplit sep (c # cs) =
     (if c = sep then [] # bytesSplit sep cs
      else (case bytesSplit sep cs of
              [] \<Rightarrow> [[c]]
            | x # xs \<Rightarrow> (c # x) # xs))"

text \<open>\<open>bytes.SplitN(s, sep, 2)\<close> for a one-byte separator: split at the first occurrence only.\<close>

definition bytesSplitN2 :: "char \<Rightarrow> string \<Rightarrow> string list" where
  "bytesSplitN2 sep s =
     (if sep \<in> set s
      then [takeWhile (\<lambda>c. c \<noteq> sep) s, tl (dropWhile (\<lambda>c. c \<noteq> sep) s)]
      else [s])"

text \<open>
  \<open>bytes.TrimSpace\<close> removes leading and trailing white space as Unicode defines it
  (\<open>unicode.IsSpace\<close>), reading the bytes as UTF-8. The white-space code points and their
  encodings: the six ASCII ones, U+0085, U+00A0, U+1680, U+2000 to U+200A, U+2028, U+2029,
  U+202F, U+205F and U+3000.
\<close>

definition spaceRunes :: "string list" where
  "spaceRunes =
     [[CHR 0x09], [CHR 0x0A], [CHR 0x0B], [CHR 0x0C], [CHR 0x0D], [CHR 0x20],
      [CHR 0xC2, CHR 0x85], [CHR 0xC2, CHR 0xA0],
      [CHR 0xE1, CHR 0x9A, CHR 0x80],
      [CHR 0xE2, CHR 0x80, CHR 0x80], [CHR 0xE2, CHR 0x80, CHR 0x81],
      [CHR 0xE2, CHR 0x80, CHR 0x82], [CHR 0xE2, CHR 0x80, CHR 0x83],
      [CHR 0xE2, CHR 0x80, CHR 0x84], [CHR 0xE2, CHR 0x80, CHR 0x85],
      [CHR 0xE2, CHR 0x80, CHR 0x86], [CHR 0xE2, CHR 0x80, CHR 0x87],
      [CHR 0xE2, CHR 0x80, CHR 0x88], [CHR 0xE2, CHR 0x80, CHR 0x89],
      [CHR 0xE2, CHR 0x80, CHR 0x8A],
      [CHR 0xE2, CHR 0x80, CHR 0xA8], [CHR 0xE2, CHR 0x80, CHR 0xA9],
      [CHR 0xE2, CHR 0x80, CHR 0xAF], [CHR 0xE2, CHR 0x81, CHR 0x9F],
      [CHR 0xE3, CHR 0x80, CHR 0x80]]"

text \<open>The number of bytes of the white-space rune a string starts with, 0 when it starts with none.\<close>

definition spacePrefixLen :: "string \<Rightarrow> nat" where
  "spacePrefixLen s =
     (case find (\<lambda>e. take (length e) s = e) spaceRunes of
        None \<Rightarrow> 0
      | Some e \<Rightarrow> length e)"

text \<open>The same at the end of the string.\<close>

definition spaceSuffixLen :: "string \<Rightarrow> nat" where
  "spaceSuffixLen s =
     (case find (\<lambda>e. length e \<le> length s \<and> drop (length s - length e) s = e) spaceRunes of
        None \<Rightarrow> 0
      | Some e \<Rightarrow> length e)"

function trimSpaceLeft :: "string \<Rightarrow> string" where
  "trimSpaceLeft s =
     (if s = [] \<or> spacePrefixLen s = 0 then s
      else trimSpaceLeft (drop (spacePrefixLen s) s))"
  by pat_completeness auto
termination
  by (relation "measure length") auto

function trimSpaceRight :: "string \<Rightarrow> string" where
  "trimSpaceRight s =
     (if s = [] \<or> spaceSuffixLen s = 0 then s
      else trimSpaceRight (take (length s - spaceSuffixLen s) s))"
  by pat_completeness auto
termination
  by (relation "measure length") auto

declare trimSpaceLeft.simps [simp del]
declare trimSpaceRight.simps [simp del]

definition bytesTrimSpace :: "string \<Rightarrow> string" where
  "bytesTrimSpace s = trimSpaceRight (trimSpaceLeft s)"

subsection \<open>\<open>strconv.ParseUint(s, 10, 64)\<close>\<close>

type_synonym uint64 = "64 word"

definition isDigit :: "char \<Rightarrow> bool" where
  "isDigit c = ((of_char (CHR ''0'') :: nat) \<le> of_char c \<and> (of_char c :: nat) \<le> of_char (CHR ''9''))"

definition digitVal :: "char \<Rightarrow> nat" where
  "digitVal c = of_char c - of_char (CHR ''0'')"

text \<open>\<open>cutoff\<close> is the smallest number whose tenfold exceeds the largest \<open>uint64\<close>.\<close>

definition cutoff :: uint64 where
  "cutoff = 1844674407370955162"

text \<open>
  The digit loop: a byte that is no decimal digit is a syntax error, a value that does not
  fit 64 bits is a range error, found in the order the bytes are read.
\<close>

fun parseUintLoop :: "string \<Rightarrow> uint64 \<Rightarrow> string \<Rightarrow> error + uint64" where
  "parseUintLoop s0 n [] = Inr n"
| "parseUintLoop s0 n (c # cs) =
     (if \<not> isDigit c then Inl (ErrSyntax s0)
      else if n \<ge> cutoff then Inl (ErrRange s0)
      else (let n10 = n * 10; n1 = n10 + of_nat (digitVal c)
            in if n1 < n10 then Inl (ErrRange s0)
               else parseUintLoop s0 n1 cs))"

definition parseUint :: "string \<Rightarrow> error + uint64" where
  "parseUint s = (if s = [] then Inl (ErrSyntax s) else parseUintLoop s 0 s)"

section \<open>The range codec\<close>

text \<open>\<open>type ranges [][2]uint64\<close>: a sequence of pairs of bounds.\<close>

type_synonym ranges = "(uint64 \<times> uint64) list"

text \<open>
  One pass of the loop body of \<open>UnmarshalJSON\<close> on a segment: the two bounds, or the
  error the body returns with.
\<close>

definition decodeSegment :: "string \<Rightarrow> error + (uint64 \<times> uint64)" where
  "decodeSegment r =
     (case bytesSplitN2 (CHR ''-'') r of
        [p0, p1] \<Rightarrow>
          (case parseUint (bytesTrimSpace p0) of
             Inl e \<Rightarrow> Inl e
           | Inr lo \<Rightarrow>
               (case parseUint (bytesTrimSpace p1) of
                  Inl e \<Rightarrow> Inl e
                | Inr hi \<Rightarrow> Inr (lo, hi)))
      | _ \<Rightarrow> Inl (BadRange r))"

text \<open>
  The loop over the segments. Each decoded pair is appended to the target at once
  (\<open>*rs = append(*rs, rng)\<close>), so the target in hand when a later segment fails already
  holds the earlier pairs. The result is the returned error (\<open>None\<close> for \<open>nil\<close>) and the
  target as the call leaves it.
\<close>

fun unmarshalLoop :: "ranges \<Rightarrow> string list \<Rightarrow> error option \<times> ranges" where
  "unmarshalLoop rs [] = (None, rs)"
| "unmarshalLoop rs (r # segs) =
     (case decodeSegment r of
        Inl e \<Rightarrow> (Some e, rs)
      | Inr rng \<Rightarrow> unmarshalLoop (rs @ [rng]) segs)"

definition UnmarshalJSON :: "ranges \<Rightarrow> string \<Rightarrow> error option \<times> ranges" where
  "UnmarshalJSON rs data =
     (let data' = bytesTrim ''[]\"'' data
      in if data' = [] then (None, rs)
         else unmarshalLoop rs (bytesSplit (CHR '','') data'))"

text \<open>\<open>size\<close>: the loop adds \<open>1 + (hi - lo)\<close> per pair, in \<open>uint64\<close>.\<close>

fun sizeLoop :: "uint64 \<Rightarrow> ranges \<Rightarrow> uint64" where
  "sizeLoop sz [] = sz"
| "sizeLoop sz (r # rs) = sizeLoop (sz + (1 + (snd r - fst r))) rs"

definition size_ranges :: "ranges \<Rightarrow> uint64" where
  "size_ranges rs = sizeLoop 0 rs"

subsection \<open>Decimal text of the bounds\<close>

text \<open>
  The decimal rendering of an unsigned number, as \<open>fmt.Sprintf("%d", n)\<close> prints it and as
  the payload writes the bounds of a range; \<open>rangeText lo hi\<close> is the segment \<open>lo-hi\<close>.
\<close>

definition digitChar :: "nat \<Rightarrow> char" where
  "digitChar d = char_of (of_char (CHR ''0'') + d)"

fun decimal :: "nat \<Rightarrow> string" where
  "decimal n = (if n < 10 then [digitChar n] else decimal (n div 10) @ [digitChar (n mod 10)])"

declare decimal.simps [simp del]

definition rangeText :: "uint64 \<Rightarrow> uint64 \<Rightarrow> string" where
  "rangeText lo hi = decimal (unat lo) @ CHR ''-'' # decimal (unat hi)"

text \<open>The number a digit string denotes, read from the left with a starting value.\<close>

fun digval :: "nat \<Rightarrow> string \<Rightarrow> nat" where
  "digval a [] = a"
| "digval a (c # cs) = digval (10 * a + digitVal c) cs"




section \<open>Descriptors, samples and the metric caches\<close>

text \<open>
  The registry's types come from the Prometheus client library. A descriptor holds the
  fully qualified name, the help text, the ordered label names and the error its
  construction found, if any; a sample is what \<open>MustNewConstMetric\<close> builds: a descriptor,
  a value type, a value and one label value per label name. A \<open>float64\<close> is modelled by a
  real number: the statements below are about which samples are emitted and with which
  labels, and no rounding is modelled.
\<close>

type_synonym float64 = real

datatype valueType = CounterValue | GaugeValue

record Desc =
  fqName :: string
  helpText :: string
  variableLabels :: "string list"
  descErr :: "string option"

record sample =
  sDesc :: Desc
  sType :: valueType
  sValue :: float64
  sLabels :: "string list"

text \<open>
  A call either returns, or panics, or blocks for ever; each outcome carries the state the
  program is in at that point.
\<close>

datatype 'a outcome = Returns 'a | Panics string 'a | Blocks 'a

subsection \<open>The library's checks\<close>

definition isLetter :: "char \<Rightarrow> bool" where
  "isLetter c =
     (((of_char (CHR ''a'') :: nat) \<le> of_char c \<and> (of_char c :: nat) \<le> of_char (CHR ''z''))
      \<or> ((of_char (CHR ''A'') :: nat) \<le> of_char c \<and> (of_char c :: nat) \<le> of_char (CHR ''Z'')))"

text \<open>The class \<open>[a-zA-Z_]\<close> and the class \<open>[a-zA-Z0-9_]\<close> (\<open>[:word:]\<close>).\<close>

definition isNameStart :: "char \<Rightarrow> bool" where
  "isNameStart c = (isLetter c \<or> c = CHR ''_'')"

definition isWordChar :: "char \<Rightarrow> bool" where
  "isWordChar c = (isLetter c \<or> isDigit c \<or> c = CHR ''_'')"

text \<open>
  \<open>BuildFQName\<close> joins the non-empty parts with underscores, and is empty when the name is.
\<close>

definition BuildFQName :: "string \<Rightarrow> string \<Rightarrow> string \<Rightarrow> string" where
  "BuildFQName namespace subsystem name =
     (if name = [] then []
      else if namespace \<noteq> [] \<and> subsystem \<noteq> [] then namespace @ ''_'' @ subsystem @ ''_'' @ name
      else if namespace \<noteq> [] then namespace @ ''_'' @ name
      else if subsystem \<noteq> [] then subsystem @ ''_'' @ name
      else name)"

text \<open>
  \<open>NewDesc\<close> records an error in the descriptor instead of failing: for a metric name
  outside \<open>[a-zA-Z_:][a-zA-Z0-9_:]*\<close>, for a label name outside \<open>[a-zA-Z_][a-zA-Z0-9_]*\<close>
  or starting with two underscores, and for a label name that occurs twice.
\<close>

definition isValidMetricName :: "string \<Rightarrow> bool" where
  "isValidMetricName n =
     (case n of
        [] \<Rightarrow> False
      | c # cs \<Rightarrow> (isNameStart c \<or> c = CHR '':'') \<and> list_all (\<lambda>x. isWordChar x \<or> x = CHR '':'') cs)"

definition checkLabelName :: "string \<Rightarrow> bool" where
  "checkLabelName l =
     (case l of
        [] \<Rightarrow> False
      | c # cs \<Rightarrow> isNameStart c \<and> list_all isWordChar cs \<and> take 2 l \<noteq> ''__'')"

definition NewDesc :: "string \<Rightarrow> string \<Rightarrow> string list \<Rightarrow> Desc" where
  "NewDesc name hlp labels =
     \<lparr>fqName = name, helpText = hlp, variableLabels = labels,
      descErr =
        (if \<not> isValidMetricName name then Some ''not a valid metric name''
         else if \<not> list_all checkLabelName labels then Some ''not a valid label name''
         else if \<not> distinct labels then Some ''duplicate label names''
         else None)\<rparr>"

text \<open>
  \<open>MustNewConstMetric\<close> panics when the descriptor carries an error or when the number of
  label values differs from the number of label names; \<open>Inl\<close> is the panic. Its third
  check, that the label values are valid UTF-8, is left out: the values this program
  passes are decoded JSON strings and accepted attribute values, which are.
\<close>

definition MustNewConstMetric ::
  "Desc \<Rightarrow> valueType \<Rightarrow> float64 \<Rightarrow> string list \<Rightarrow> string + sample" where
  "MustNewConstMetric d vt v labelValues =
     (case descErr d of
        Some e \<Rightarrow> Inl e
      | None \<Rightarrow>
          if length labelValues \<noteq> length (variableLabels d) then Inl ''inconsistent label cardinality''
          else Inr \<lparr>sDesc = d, sType = vt, sValue = v, sLabels = labelValues\<rparr>)"

subsection \<open>The process-wide state\<close>

text \<open>
  What a scrape reads and writes outside the collectors: the metric channel handed to
  \<open>Collect\<close> (the list of what has been sent on it; \<open>None\<close> is a nil metric), the shared
  error counter, the log, and the client with its token cache.
\<close>

datatype level = Debug | Warn | Error

record authInfo =
  username :: string
  password :: string
  loginURL :: string
  token :: string
  tokenExpire :: int
  signingKey :: string
  strictMode :: bool
  privateKey :: string
  skipSSLVerify :: bool

record httpClient =
  url :: string
  auth :: authInfo
  userAgent :: string

record world =
  out :: "sample option list"
  errorCounter :: nat
  logs :: "(level \<times> string) list"
  client :: httpClient

definition send :: "sample option \<Rightarrow> world \<Rightarrow> world" where
  "send v w = w\<lparr>out := out w @ [v]\<rparr>"

definition logAt :: "level \<Rightarrow> string \<Rightarrow> world \<Rightarrow> world" where
  "logAt l msg w = w\<lparr>logs := logs w @ [(l, msg)]\<rparr>"

definition errorCounterInc :: "world \<Rightarrow> world" where
  "errorCounterInc w = w\<lparr>errorCounter := errorCounter w + 1\<rparr>"

subsection \<open>\<open>settableCounterVec\<close>: the dynamic-label cache\<close>

record settableCounterVec =
  cvDesc :: Desc
  cvValues :: "sample list"

text \<open>\<open>counter(subsystem, name, help, labels...)\<close>\<close>

definition counter :: "string \<Rightarrow> string \<Rightarrow> string \<Rightarrow> string list \<Rightarrow> settableCounterVec" where
  "counter subsystem name hlp labels =
     \<lparr>cvDesc = NewDesc (BuildFQName ''mesos'' subsystem name) hlp labels, cvValues = []\<rparr>"

text \<open>\<open>Set\<close> appends the new sample to the buffer, or panics with the buffer as it was.\<close>

definition cvSet :: "float64 \<Rightarrow> string list \<Rightarrow> settableCounterVec \<Rightarrow> settableCounterVec outcome" where
  "cvSet v labelValues c =
     (case MustNewConstMetric (cvDesc c) CounterValue v labelValues of
        Inl msg \<Rightarrow> Panics msg c
      | Inr m \<Rightarrow> Returns (c\<lparr>cvValues := cvValues c @ [m]\<rparr>))"

text \<open>\<open>Collect\<close> sends every buffered sample, in order, and then empties the buffer.\<close>

fun sendAll :: "sample list \<Rightarrow> world \<Rightarrow> world" where
  "sendAll [] w = w"
| "sendAll (v # vs) w = sendAll vs (send (Some v) w)"

definition cvCollect :: "settableCounterVec \<Rightarrow> world \<Rightarrow> settableCounterVec \<times> world" where
  "cvCollect c w = (c\<lparr>cvValues := []\<rparr>, sendAll (cvValues c) w)"

subsection \<open>\<open>settableCounter\<close>: the unkeyed single value\<close>

text \<open>Both fields are pointers the code tests against nil.\<close>

record settableCounter =
  cDesc :: "Desc option"
  cValue :: "sample option"

definition newSettableCounter :: "string \<Rightarrow> string \<Rightarrow> string \<Rightarrow> settableCounter" where
  "newSettableCounter subsystem name hlp =
     \<lparr>cDesc = Some (NewDesc (BuildFQName ''mesos'' subsystem name) hlp []), cValue = None\<rparr>"

definition cSet :: "float64 \<Rightarrow> settableCounter \<Rightarrow> settableCounter outcome" where
  "cSet v c =
     (case cDesc c of
        None \<Rightarrow> Panics ''nil pointer dereference'' c
      | Some d \<Rightarrow>
          (case MustNewConstMetric d CounterValue v [] of
             Inl msg \<Rightarrow> Panics msg c
           | Inr m \<Rightarrow> Returns (c\<lparr>cValue := Some m\<rparr>)))"

text \<open>
  \<open>Collect\<close> warns when the value is nil and sends the value in either case; the counter
  itself is not written.
\<close>

definition cCollect :: "settableCounter \<Rightarrow> world \<Rightarrow> settableCounter \<times> world" where
  "cCollect c w =
     (let w1 = (if cValue c = None then logAt Warn ''NIL value'' w else w)
      in (c, send (cValue c) w1))"

subsection \<open>Sequences of calls\<close>

text \<open>
  A sequence of \<open>Set\<close> calls on the dynamic-label cache, each with its value and label
  values; a panic ends the sequence.
\<close>

fun cvSets :: "(float64 \<times> string list) list \<Rightarrow> settableCounterVec \<Rightarrow> settableCounterVec outcome" where
  "cvSets [] c = Returns c"
| "cvSets ((v, l) # calls) c =
     (case cvSet v l c of
        Returns c' \<Rightarrow> cvSets calls c'
      | Panics msg c' \<Rightarrow> Panics msg c'
      | Blocks c' \<Rightarrow> Blocks c')"

text \<open>The sample a \<open>Set\<close> call of the cache builds.\<close>

definition cvSample :: "settableCounterVec \<Rightarrow> float64 \<times> string list \<Rightarrow> sample" where
  "cvSample c call =
     \<lparr>sDesc = cvDesc c, sType = CounterValue, sValue = fst call, sLabels = snd call\<rparr>"

text \<open>A world in which nothing has happened yet, for the concrete runs below.\<close>

definition world0 :: world where
  "world0 =
     \<lparr>out = [], errorCounter = 0, logs = [],
      client = \<lparr>url = ''http://master:5050/'',
                auth = \<lparr>username = [], password = [], loginURL = [], token = [],
                        tokenExpire = 0, signingKey = [], strictMode = False,
                        privateKey = [], skipSSLVerify = False\<rparr>,
                userAgent = ''mesos_exporter''\<rparr>\<rparr>"

text \<open>An unkeyed counter as the callers build it, and the sample a \<open>Set(5)\<close> stores in it.\<close>

definition uptimeCounter :: settableCounter where
  "uptimeCounter = newSettableCounter ''master'' ''uptime_seconds'' ''Uptime''"

definition uptimeSample :: sample where
  "uptimeSample =
     \<lparr>sDesc = NewDesc ''mesos_master_uptime_seconds'' ''Uptime'' [],
      sType = CounterValue, sValue = 5, sLabels = []\<rparr>"

section \<open>The state snapshot and the attribute translator\<close>

subsection \<open>Label names and attribute values\<close>

text \<open>
  The regular expressions read their input as UTF-8, one code point at a time, and an
  invalid byte counts as a code point of its own. \<open>runeTail c0 r\<close> is the number of bytes
  after the first that belong to the code point at the start of \<open>c0 # r\<close>, as
  \<open>utf8.DecodeRune\<close> finds it.
\<close>

definition byte :: "char \<Rightarrow> nat" where
  "byte c = of_char c"

definition isCont :: "char \<Rightarrow> bool" where
  "isCont c = (0x80 \<le> byte c \<and> byte c \<le> 0xBF)"

definition runeTail :: "char \<Rightarrow> string \<Rightarrow> nat" where
  "runeTail c0 r =
     (let b0 = byte c0 in
      if 0xC2 \<le> b0 \<and> b0 \<le> 0xDF then
        (case r of
           c1 # _ \<Rightarrow> if isCont c1 then 1 else 0
         | _ \<Rightarrow> 0)
      else if 0xE0 \<le> b0 \<and> b0 \<le> 0xEF then
        (case r of
           c1 # c2 # _ \<Rightarrow>
             if (if b0 = 0xE0 then 0xA0 else 0x80) \<le> byte c1
                \<and> byte c1 \<le> (if b0 = 0xED then 0x9F else 0xBF) \<and> isCont c2
             then 2 else 0
         | _ \<Rightarrow> 0)
      else if 0xF0 \<le> b0 \<and> b0 \<le> 0xF4 then
        (case r of
           c1 # c2 # c3 # _ \<Rightarrow>
             if (if b0 = 0xF0 then 0x90 else 0x80) \<le> byte c1
                \<and> byte c1 \<le> (if b0 = 0xF4 then 0x8F else 0xBF) \<and> isCont c2 \<and> isCont c3
             then 3 else 0
         | _ \<Rightarrow> 0)
      else 0)"

text \<open>
  \<open>normaliseLabel\<close> replaces every match of \<open>(^[^a-zA-Z_])|([^a-zA-Z0-9_])\<close> by an
  underscore: the first code point unless it is a letter or an underscore, and every later
  code point unless it is a letter, a digit or an underscore. The flag tells whether the
  string starts at the beginning of the label.
\<close>

fun normaliseRunes :: "bool \<Rightarrow> string \<Rightarrow> string" where
  "normaliseRunes first [] = []"
| "normaliseRunes first (c # cs) =
     (if (if first then isNameStart c else isWordChar c) then c else CHR ''_'')
     # normaliseRunes False (drop (runeTail c cs) cs)"

definition normaliseLabel :: "string \<Rightarrow> string" where
  "normaliseLabel label = normaliseRunes True label"

definition normaliseLabelList :: "string list \<Rightarrow> string list" where
  "normaliseLabelList labelList = foldl (\<lambda>acc label. acc @ [normaliseLabel label]) [] labelList"

fun stringInSlice :: "string \<Rightarrow> string list \<Rightarrow> bool" where
  "stringInSlice s [] = False"
| "stringInSlice s (elem # rest) = (if s = elem then True else stringInSlice s rest)"

text \<open>
  \<open>prometheus.Labels\<close> is a map from label names to values; reading a missing key gives
  the empty string.
\<close>

type_synonym Labels = "string \<rightharpoonup> string"

definition labelAt :: "Labels \<Rightarrow> string \<Rightarrow> string" where
  "labelAt labels l = (case labels l of None \<Rightarrow> [] | Some v \<Rightarrow> v)"

definition getLabelValuesFromMap :: "Labels \<Rightarrow> string list \<Rightarrow> string list" where
  "getLabelValuesFromMap labels orderedLabelKeys =
     foldl (\<lambda>labelValues l. labelValues @ [labelAt labels l]) [] orderedLabelKeys"

text \<open>
  \<open>attributeString\<close>: the value without the quote characters at its ends, when all of it
  matches \<open>^[-[:word:]/.]*$\<close>.
\<close>

definition isTextChar :: "char \<Rightarrow> bool" where
  "isTextChar c = (c = CHR ''-'' \<or> isWordChar c \<or> c = CHR ''/'' \<or> c = CHR ''.'')"

definition attributeString :: "string \<Rightarrow> error + string" where
  "attributeString attribute =
     (let v = bytesTrim ''\"'' attribute
      in if list_all isTextChar v then Inr v else Inl ErrDropAttribute)"

subsection \<open>The snapshot\<close>

text \<open>
  The attributes of a node are a map from keys to raw JSON values; the list gives its
  entries in the order the loop over the map visits them, which the language leaves open.
  The frameworks of the payload are read by no function modelled here and are left out.
\<close>

record resources =
  CPUs :: float64
  Disk :: float64
  Mem :: float64
  Ports :: ranges

record slave =
  PID :: string
  Hostname :: string
  Id :: string
  Port :: "32 word"
  Used :: resources
  Unreserved :: resources
  Total :: resources
  Attributes :: "(string \<times> string) list"

record state =
  Slaves :: "slave list"

subsection \<open>Gauge vectors\<close>

text \<open>
  A \<open>GaugeVec\<close> of the client library keeps one child per tuple of label values, from the
  first \<open>Set\<close> on it until the process ends; its \<open>Collect\<close> sends every child.
  \<open>WithLabelValues\<close> panics when the number of values is not the number of label names.
\<close>

record gaugeVec =
  gvDesc :: Desc
  gvChildren :: "(string list \<times> float64) list"

definition NewGaugeVec :: "string \<Rightarrow> string \<Rightarrow> string \<Rightarrow> string \<Rightarrow> string list \<Rightarrow> gaugeVec" where
  "NewGaugeVec namespace subsystem name hlp labels =
     \<lparr>gvDesc = NewDesc (BuildFQName namespace subsystem name) hlp labels, gvChildren = []\<rparr>"

definition gauge :: "string \<Rightarrow> string \<Rightarrow> string \<Rightarrow> string list \<Rightarrow> gaugeVec" where
  "gauge subsystem name hlp labels = NewGaugeVec ''mesos'' subsystem name hlp labels"

fun upsert :: "'k \<Rightarrow> 'v \<Rightarrow> ('k \<times> 'v) list \<Rightarrow> ('k \<times> 'v) list" where
  "upsert k v [] = [(k, v)]"
| "upsert k v ((k', v') # kvs) = (if k = k' then (k, v) # kvs else (k', v') # upsert k v kvs)"

definition gvSet :: "string list \<Rightarrow> float64 \<Rightarrow> gaugeVec \<Rightarrow> gaugeVec outcome" where
  "gvSet labelValues v g =
     (if length labelValues \<noteq> length (variableLabels (gvDesc g))
      then Panics ''inconsistent label cardinality'' g
      else Returns (g\<lparr>gvChildren := upsert labelValues v (gvChildren g)\<rparr>))"

definition gvSamples :: "gaugeVec \<Rightarrow> sample list" where
  "gvSamples g =
     map (\<lambda>(lvs, v). \<lparr>sDesc = gvDesc g, sType = GaugeValue, sValue = v, sLabels = lvs\<rparr>)
         (gvChildren g)"

definition gvCollect :: "gaugeVec \<Rightarrow> world \<Rightarrow> gaugeVec \<times> world" where
  "gvCollect g w = (g, sendAll (gvSamples g) w)"

subsection \<open>Collectors\<close>

text \<open>The metric types behind the \<open>prometheus.Collector\<close> interface in this program.\<close>

datatype collector =
    GaugeVecC gaugeVec
  | CounterVecC settableCounterVec
  | CounterC settableCounter

definition Collect :: "collector \<Rightarrow> world \<Rightarrow> collector \<times> world" where
  "Collect c w =
     (case c of
        GaugeVecC g \<Rightarrow> (case gvCollect g w of (g', w') \<Rightarrow> (GaugeVecC g', w'))
      | CounterVecC cv \<Rightarrow> (case cvCollect cv w of (cv', w') \<Rightarrow> (CounterVecC cv', w'))
      | CounterC sc \<Rightarrow> (case cCollect sc w of (sc', w') \<Rightarrow> (CounterC sc', w')))"

subsection \<open>The attribute translator\<close>

text \<open>
  The label map the closure of \<open>newMasterStateCollector\<close> builds for one node: the
  identity label, every configured label set to the empty string, then every attribute
  whose normalised key is configured and whose value \<open>attributeString\<close> accepts.
\<close>

definition putAttribute :: "string list \<Rightarrow> Labels \<Rightarrow> string \<times> string \<Rightarrow> Labels" where
  "putAttribute normalisedAttributeLabels export attr =
     (let normalisedLabel = normaliseLabel (fst attr)
      in if stringInSlice normalisedLabel normalisedAttributeLabels
         then (case attributeString (snd attr) of
                 Inr attribute \<Rightarrow> export(normalisedLabel \<mapsto> attribute)
               | Inl e \<Rightarrow> export)
         else export)"

definition slaveAttributesExport :: "string list \<Rightarrow> slave \<Rightarrow> Labels" where
  "slaveAttributesExport normalisedAttributeLabels s =
     foldl (putAttribute normalisedAttributeLabels)
       (foldl (\<lambda>export l. export(l \<mapsto> [])) [''slave'' \<mapsto> PID s] normalisedAttributeLabels)
       (Attributes s)"

text \<open>The label values of the sample for one node, and the loop over the nodes.\<close>

definition slaveAttributeValues :: "string list \<Rightarrow> string list \<Rightarrow> slave \<Rightarrow> string list" where
  "slaveAttributeValues normalisedAttributeLabels slaveAttributesLabelsExport s =
     getLabelValuesFromMap (slaveAttributesExport normalisedAttributeLabels s)
       slaveAttributesLabelsExport"

fun setAttributes :: "string list \<Rightarrow> string list \<Rightarrow> slave list \<Rightarrow> settableCounterVec
    \<Rightarrow> settableCounterVec outcome" where
  "setAttributes nls els [] c = Returns c"
| "setAttributes nls els (s # ss) c =
     (case cvSet 1 (slaveAttributeValues nls els s) c of
        Returns c' \<Rightarrow> setAttributes nls els ss c'
      | Panics msg c' \<Rightarrow> Panics msg c'
      | Blocks c' \<Rightarrow> Blocks c')"

text \<open>The closure itself: the type assertion on its collector, then the loop.\<close>

definition mapOutcome :: "('a \<Rightarrow> 'b) \<Rightarrow> 'a outcome \<Rightarrow> 'b outcome" where
  "mapOutcome f r =
     (case r of
        Returns x \<Rightarrow> Returns (f x)
      | Panics msg x \<Rightarrow> Panics msg (f x)
      | Blocks x \<Rightarrow> Blocks (f x))"

definition attributesSetter :: "string list \<Rightarrow> string list \<Rightarrow> state \<Rightarrow> collector \<Rightarrow> collector outcome" where
  "attributesSetter nls els st c =
     (case c of
        CounterVecC cv \<Rightarrow> mapOutcome CounterVecC (setAttributes nls els (Slaves st) cv)
      | _ \<Rightarrow> Panics ''interface conversion'' c)"

text \<open>The fixed labels of the node series and the labels of the attribute series.\<close>

definition slaveLabels :: "string list" where
  "slaveLabels = [''slave'', ''hostname'', ''port'', ''id'']"

definition slaveAttributesLabelsExport :: "string list \<Rightarrow> string list" where
  "slaveAttributesLabelsExport slaveAttributeLabels =
     slaveLabels @ normaliseLabelList slaveAttributeLabels"

definition attributesCounter :: "string list \<Rightarrow> settableCounterVec" where
  "attributesCounter slaveAttributeLabels =
     counter ''slave'' ''attributes'' ''Attributes assigned to slaves''
       (slaveAttributesLabelsExport slaveAttributeLabels)"

subsection \<open>Notions used to state the properties of the attribute translator\<close>

text \<open>The values accepted for a label among the attributes of a node, in visiting order.\<close>

definition acceptedFor :: "string \<Rightarrow> (string \<times> string) list \<Rightarrow> string list" where
  "acceptedFor l attrs =
     concat (map (\<lambda>attr. if normaliseLabel (fst attr) = l
                          then (case attributeString (snd attr) of Inr a \<Rightarrow> [a] | Inl e \<Rightarrow> [])
                          else []) attrs)"

text \<open>
  The characters \<open>^[-[:word:]/.]*$\<close> admits, written out, and the smaller set the
  specification words: word characters, the path separator and the dot.
\<close>

definition textCharset :: "char set" where
  "textCharset = set ''abcdefghijklmnopqrstuvwxyzABCDEFGHIJKLMNOPQRSTUVWXYZ0123456789_-/.''"

definition claimedCharset :: "char set" where
  "claimedCharset = set ''abcdefghijklmnopqrstuvwxyzABCDEFGHIJKLMNOPQRSTUVWXYZ0123456789_/.''"

text \<open>A node for the concrete runs.\<close>

definition node1 :: slave where
  "node1 =
     \<lparr>PID = ''slave(1)@10.0.0.1:5051'', Hostname = ''host1'', Id = ''S1'', Port = 5051,
      Used = \<lparr>CPUs = 3 / 2, Disk = 0, Mem = 1, Ports = [(31000, 31001)]\<rparr>,
      Unreserved = \<lparr>CPUs = 4, Disk = 10, Mem = 2, Ports = [(31000, 32000)]\<rparr>,
      Total = \<lparr>CPUs = 4, Disk = 10, Mem = 2, Ports = [(31000, 32000)]\<rparr>,
      Attributes = [(''rack'', ''\"3\"''), (''zone'', ''\"x\"'')]\<rparr>"

section \<open>The HTTP client and the token cache\<close>

text \<open>
  What the network, the clock and the signing library answer is no part of the program:
  each call below takes the answers of its surroundings as arguments. Times are Unix
  seconds, far from the ends of \<open>int64\<close>, and are modelled by integers.
\<close>

datatype loginOutcome =
    MarshalFails
  | LoginRequestFails
  | LoginDoFails
  | LoginDecodeFails
  | LoginOk string

record authEnv =
  currentTime :: int
  signTime :: int
  keyParses :: bool
  signedString :: "string option"
  login :: loginOutcome

definition setTokenExpire :: "int \<Rightarrow> world \<Rightarrow> world" where
  "setTokenExpire t w = w\<lparr>client := (client w)\<lparr>auth := (auth (client w))\<lparr>tokenExpire := t\<rparr>\<rparr>\<rparr>"

definition setToken :: "string \<Rightarrow> world \<Rightarrow> world" where
  "setToken t w = w\<lparr>client := (client w)\<lparr>auth := (auth (client w))\<lparr>token := t\<rparr>\<rparr>\<rparr>"

text \<open>
  \<open>signingToken\<close>: a key that does not parse is logged and the function goes on; the
  expiry is stored before the token is signed; a signing error gives the empty string.
\<close>

definition signingToken :: "authEnv \<Rightarrow> world \<Rightarrow> string \<times> world" where
  "signingToken env w =
     (let w1 = (if keyParses env then w else logAt Error ''Error parsing privateKey'' w);
          expireToken = signTime env + 3600;
          w2 = setTokenExpire expireToken w1;
          w3 = logAt Debug ''creating token'' w2
      in case signedString env of
           None \<Rightarrow> ([], logAt Error ''Error creating login token'' w3)
         | Some tokenString \<Rightarrow> (tokenString, w3))"

text \<open>
  \<open>authToken\<close>: the refresh runs when the clock is past the stored expiry; each failure
  after the signing step returns the empty string, and only the last step writes the
  token.
\<close>

definition authToken :: "authEnv \<Rightarrow> world \<Rightarrow> string \<times> world" where
  "authToken env w =
     (if currentTime env > tokenExpire (auth (client w)) then
        (case signingToken env w of
           (assertion, w1) \<Rightarrow>
             (case login env of
                MarshalFails \<Rightarrow> ([], logAt Error ''Error creating JSON request'' w1)
              | LoginRequestFails \<Rightarrow> ([], logAt Error ''Error creating HTTP request'' w1)
              | LoginDoFails \<Rightarrow> ([], errorCounterInc (logAt Error ''Error fetching URL'' w1))
              | LoginDecodeFails \<Rightarrow>
                  ([], errorCounterInc (logAt Error ''Error decoding response body'' w1))
              | LoginOk tok \<Rightarrow>
                  (let w2 = setToken (''token='' @ tok) w1
                   in (token (auth (client w2)), w2))))
      else (token (auth (client w)), w))"

text \<open>
  \<open>fetchAndDecode\<close>: the answer is that the request cannot be built, that the transport
  fails, that the body does not decode (the target is then left as the decoder left it), or
  the decoded value. The result is the success flag, the target and the new state. The
  headers of the request, among them the basic-auth credentials, leave no trace in the
  state; the token does, through \<open>authToken\<close>, which runs in strict mode once the request
  is built.
\<close>

datatype 'a fetched = RequestFails | DoFails | DecodeFails 'a | Decoded 'a

definition beforeDo :: "authEnv \<Rightarrow> world \<Rightarrow> world" where
  "beforeDo env w =
     logAt Debug ''fetching URL''
       (if strictMode (auth (client w)) then snd (authToken env w) else w)"

definition fetchAndDecode ::
  "authEnv \<Rightarrow> 'a fetched \<Rightarrow> string \<Rightarrow> 'a \<Rightarrow> world \<Rightarrow> bool \<times> 'a \<times> world" where
  "fetchAndDecode env answer endpoint target w =
     (case answer of
        RequestFails \<Rightarrow> (False, target, logAt Error ''Error creating HTTP request'' w)
      | DoFails \<Rightarrow>
          (False, target, errorCounterInc (logAt Error ''Error fetching URL'' (beforeDo env w)))
      | DecodeFails t \<Rightarrow>
          (False, t, errorCounterInc (logAt Error ''Error decoding response body'' (beforeDo env w)))
      | Decoded t \<Rightarrow> (True, t, beforeDo env w))"

section \<open>The collectors\<close>

subsection \<open>The node series of the master collector\<close>

text \<open>One pass of a gauge closure: a \<open>Set\<close> per node on the child of its four labels.\<close>

definition slaveLabelValues :: "slave \<Rightarrow> string list" where
  "slaveLabelValues s = [PID s, Hostname s, decimal (unat (Port s)), Id s]"

fun setSlaves :: "(slave \<Rightarrow> float64) \<Rightarrow> slave list \<Rightarrow> gaugeVec \<Rightarrow> gaugeVec outcome" where
  "setSlaves f [] g = Returns g"
| "setSlaves f (s # ss) g =
     (case gvSet (slaveLabelValues s) (f s) g of
        Returns g' \<Rightarrow> setSlaves f ss g'
      | Panics msg g' \<Rightarrow> Panics msg g'
      | Blocks g' \<Rightarrow> Blocks g')"

type_synonym setter = "state \<Rightarrow> collector \<Rightarrow> collector outcome"

definition slaveGaugeSetter :: "(slave \<Rightarrow> float64) \<Rightarrow> setter" where
  "slaveGaugeSetter f st c =
     (case c of
        GaugeVecC g \<Rightarrow> mapOutcome GaugeVecC (setSlaves f (Slaves st) g)
      | _ \<Rightarrow> Panics ''interface conversion'' c)"

text \<open>
  The twelve gauges: name, help text and the value read from a node. \<open>portsOf\<close> is
  \<open>float64(size)\<close>, exact below \<open>2 ^ 53\<close>.
\<close>

definition portsOf :: "resources \<Rightarrow> float64" where
  "portsOf r = real (unat (size_ranges (Ports r)))"

definition slaveGauges :: "(string \<times> string \<times> (slave \<Rightarrow> float64)) list" where
  "slaveGauges =
     [(''cpus'', ''Total slave CPUs (fractional)'', \<lambda>s. CPUs (Total s)),
      (''cpus_used'', ''Used slave CPUs (fractional)'', \<lambda>s. CPUs (Used s)),
      (''cpus_unreserved'', ''Unreserved slave CPUs (fractional)'', \<lambda>s. CPUs (Unreserved s)),
      (''mem_bytes'', ''Total slave memory in bytes'', \<lambda>s. Mem (Total s) * 1024),
      (''mem_used_bytes'', ''Used slave memory in bytes'', \<lambda>s. Mem (Used s) * 1024),
      (''mem_unreserved_bytes'', ''Unreserved slave memory in bytes'', \<lambda>s. Mem (Unreserved s) * 1024),
      (''disk_bytes'', ''Total slave disk space in bytes'', \<lambda>s. Disk (Total s) * 1024),
      (''disk_used_bytes'', ''Used slave disk space in bytes'', \<lambda>s. Disk (Used s) * 1024),
      (''disk_unreserved_bytes'', ''Unreserved slave disk in bytes'', \<lambda>s. Disk (Unreserved s) * 1024),
      (''ports'', ''Total slave ports'', \<lambda>s. portsOf (Total s)),
      (''ports_used'', ''Used slave ports'', \<lambda>s. portsOf (Used s)),
      (''ports_unreserved'', ''Unreserved slave ports'', \<lambda>s. portsOf (Unreserved s))]"

text \<open>
  The collector maps each metric to its closure. The list holds the entries of that map in
  the order a loop over it visits them; the language leaves the order open.
\<close>

record masterCollector =
  mcMetrics :: "(collector \<times> setter) list"

definition newMasterStateCollector :: "string list \<Rightarrow> masterCollector" where
  "newMasterStateCollector slaveAttributeLabels =
     \<lparr>mcMetrics =
        map (\<lambda>(name, hlp, f).
               (GaugeVecC (NewGaugeVec ''mesos'' ''slave'' name hlp slaveLabels), slaveGaugeSetter f))
            slaveGauges
        @ (if length slaveAttributeLabels > 0
           then [(CounterVecC (attributesCounter slaveAttributeLabels),
                  attributesSetter (normaliseLabelList slaveAttributeLabels)
                    (slaveAttributesLabelsExport slaveAttributeLabels))]
           else [])\<rparr>"

text \<open>
  \<open>masterCollector.Collect\<close>: the fetch, whose result flag is not read, then for every
  metric its closure on the snapshot and its \<open>Collect\<close>.
\<close>

fun collectMetrics ::
  "state \<Rightarrow> (collector \<times> setter) list \<Rightarrow> world \<Rightarrow> ((collector \<times> setter) list \<times> world) outcome" where
  "collectMetrics s [] w = Returns ([], w)"
| "collectMetrics s ((c, setc) # ms) w =
     (case setc s c of
        Returns c' \<Rightarrow>
          (case Collect c' w of
             (c'', w') \<Rightarrow>
               mapOutcome (\<lambda>(ms', w''). ((c'', setc) # ms', w'')) (collectMetrics s ms w'))
      | Panics msg c' \<Rightarrow> Panics msg ((c', setc) # ms, w)
      | Blocks c' \<Rightarrow> Blocks ((c', setc) # ms, w))"

definition masterCollector_Collect ::
  "authEnv \<Rightarrow> state fetched \<Rightarrow> masterCollector \<Rightarrow> world \<Rightarrow> (masterCollector \<times> world) outcome" where
  "masterCollector_Collect env answer mc w =
     (case fetchAndDecode env answer ''/state'' \<lparr>Slaves = []\<rparr> w of
        (ok, s, w1) \<Rightarrow>
          mapOutcome (\<lambda>(ms, w'). (mc\<lparr>mcMetrics := ms\<rparr>, w')) (collectMetrics s (mcMetrics mc) w1))"

subsection \<open>The version collector\<close>

record versionFields =
  BuildDate :: string
  BuildTime :: float64
  GitSHA :: string
  GitTag :: string
  Version :: string

record versionCollector =
  vcMetric :: gaugeVec

definition newVersionCollector :: versionCollector where
  "newVersionCollector =
     \<lparr>vcMetric = gauge [] ''version''
        ''Version information for the mesos slave/master stored in labeling''
        [''build_date'', ''build_time'', ''git_sha'', ''git_tag'', ''version'']\<rparr>"

text \<open>
  \<open>versionCollector.Collect\<close> sets and collects only when the fetch succeeds.
  \<open>sprintfF\<close> stands for \<open>fmt.Sprintf("%f", x)\<close>.
\<close>

definition versionCollector_Collect ::
  "(float64 \<Rightarrow> string) \<Rightarrow> authEnv \<Rightarrow> versionFields fetched \<Rightarrow> versionCollector \<Rightarrow> world
   \<Rightarrow> (versionCollector \<times> world) outcome" where
  "versionCollector_Collect sprintfF env answer v w =
     (case fetchAndDecode env answer ''/version''
             \<lparr>BuildDate = [], BuildTime = 0, GitSHA = [], GitTag = [], Version = []\<rparr> w of
        (ok, vf, w1) \<Rightarrow>
          if ok then
            (case gvSet [BuildDate vf, sprintfF (BuildTime vf), GitSHA vf, GitTag vf, Version vf] 1
                    (vcMetric v) of
               Returns g \<Rightarrow> (case gvCollect g w1 of (g', w2) \<Rightarrow> Returns (v\<lparr>vcMetric := g'\<rparr>, w2))
             | Panics msg g \<Rightarrow> Panics msg (v\<lparr>vcMetric := g\<rparr>, w1)
             | Blocks g \<Rightarrow> Blocks (v\<lparr>vcMetric := g\<rparr>, w1))
          else Returns (v, w1))"

subsection \<open>The numeric-map collector\<close>

text \<open>
  The snapshot maps names to numbers; a nil map has no key. An extraction function reads
  the snapshot, writes its metric and returns an error or nil; the functions themselves are
  registered by callers and are arguments here.
\<close>

type_synonym metricMap = "string \<rightharpoonup> float64"

type_synonym metricsCollectorFunctor =
  "metricMap \<Rightarrow> collector \<Rightarrow> (error option \<times> collector) outcome"

record metricCollector =
  mtMetrics :: "(collector \<times> metricsCollectorFunctor) list"

definition newMetricCollector :: "(collector \<times> metricsCollectorFunctor) list \<Rightarrow> metricCollector" where
  "newMetricCollector metrics = \<lparr>mtMetrics = metrics\<rparr>"

text \<open>
  A channel is the queue of what it holds. A receive takes the first element; on an empty
  channel that no other goroutine holds, nothing can ever arrive and the receive never
  returns: \<open>None\<close>.
\<close>

definition makeChan :: "'a list" where
  "makeChan = []"

definition chanRecv :: "'a list \<Rightarrow> ('a \<times> 'a list) option" where
  "chanRecv ch = (case ch of [] \<Rightarrow> None | x # xs \<Rightarrow> Some (x, xs))"

text \<open>
  The loop of \<open>metricCollector.Collect\<close>. On an error the body makes a fresh channel of
  descriptors and receives from it while it builds the log entry; nothing was sent on
  that channel.
\<close>

fun collectExtracted ::
  "metricMap \<Rightarrow> (collector \<times> metricsCollectorFunctor) list \<Rightarrow> world
   \<Rightarrow> ((collector \<times> metricsCollectorFunctor) list \<times> world) outcome" where
  "collectExtracted m [] w = Returns ([], w)"
| "collectExtracted m ((cm, f) # ms) w =
     (case f m cm of
        Returns (Some err, cm') \<Rightarrow>
          (case chanRecv (makeChan :: Desc list) of
             None \<Rightarrow> Blocks ((cm', f) # ms, w)
           | Some (d, ch') \<Rightarrow>
               mapOutcome (\<lambda>(ms', w'). ((cm', f) # ms', w'))
                 (collectExtracted m ms
                    (errorCounterInc (logAt Error ''Error extracting metric'' w))))
      | Returns (None, cm') \<Rightarrow>
          (case Collect cm' w of
             (cm'', w') \<Rightarrow>
               mapOutcome (\<lambda>(ms', w''). ((cm'', f) # ms', w'')) (collectExtracted m ms w'))
      | Panics msg (e, cm') \<Rightarrow> Panics msg ((cm', f) # ms, w)
      | Blocks (e, cm') \<Rightarrow> Blocks ((cm', f) # ms, w))"

definition metricCollector_Collect ::
  "authEnv \<Rightarrow> metricMap fetched \<Rightarrow> metricCollector \<Rightarrow> world \<Rightarrow> (metricCollector \<times> world) outcome" where
  "metricCollector_Collect env answer c w =
     (case fetchAndDecode env answer ''/metrics/snapshot'' Map.empty w of
        (ok, m, w1) \<Rightarrow>
          mapOutcome (\<lambda>(ms, w'). (c\<lparr>mtMetrics := ms\<rparr>, w')) (collectExtracted m (mtMetrics c) w1))"

subsection \<open>The aggregator\<close>

text \<open>The answers of the surroundings during one scrape.\<close>

record scrapeEnv =
  authAnswers :: authEnv
  stateAnswer :: "state fetched"
  snapshotAnswer :: "metricMap fetched"
  versionAnswer :: "versionFields fetched"
  sprintfF :: "float64 \<Rightarrow> string"

datatype member =
    MasterM masterCollector
  | MetricM metricCollector
  | VersionM versionCollector
  | GroupedM "member list"

text \<open>
  \<open>groupedCollector.Collect\<close> calls the members in order; a member that does not return
  keeps the ones after it from running.
\<close>

fun collectMember :: "scrapeEnv \<Rightarrow> member \<Rightarrow> world \<Rightarrow> (member \<times> world) outcome"
  and collectMembers :: "scrapeEnv \<Rightarrow> member list \<Rightarrow> world \<Rightarrow> (member list \<times> world) outcome" where
  "collectMember env (MasterM mc) w =
     mapOutcome (\<lambda>(mc', w'). (MasterM mc', w'))
       (masterCollector_Collect (authAnswers env) (stateAnswer env) mc w)"
| "collectMember env (MetricM c) w =
     mapOutcome (\<lambda>(c', w'). (MetricM c', w'))
       (metricCollector_Collect (authAnswers env) (snapshotAnswer env) c w)"
| "collectMember env (VersionM v) w =
     mapOutcome (\<lambda>(v', w'). (VersionM v', w'))
       (versionCollector_Collect (sprintfF env) (authAnswers env) (versionAnswer env) v w)"
| "collectMember env (GroupedM cs) w =
     mapOutcome (\<lambda>(cs', w'). (GroupedM cs', w')) (collectMembers env cs w)"
| "collectMembers env [] w = Returns ([], w)"
| "collectMembers env (c # cs) w =
     (case collectMember env c w of
        Returns (c', w') \<Rightarrow>
          mapOutcome (\<lambda>(cs', w''). (c' # cs', w'')) (collectMembers env cs w')
      | Panics msg (c', w') \<Rightarrow> Panics msg (c' # cs, w')
      | Blocks (c', w') \<Rightarrow> Blocks (c' # cs, w'))"

definition newGroupedCollector :: "member list \<Rightarrow> member" where
  "newGroupedCollector collectors = GroupedM collectors"

definition newStandardCollector :: "(collector \<times> metricsCollectorFunctor) list \<Rightarrow> member" where
  "newStandardCollector metrics =
     newGroupedCollector [MetricM (newMetricCollector metrics), VersionM newVersionCollector]"

section \<open>Notions and inputs used to state the properties of the collectors\<close>

text \<open>How a call ended, and the state it ended in.\<close>

definition isBlocks :: "'a outcome \<Rightarrow> bool" where
  "isBlocks r = (case r of Blocks x \<Rightarrow> True | _ \<Rightarrow> False)"

definition isReturns :: "'a outcome \<Rightarrow> bool" where
  "isReturns r = (case r of Returns x \<Rightarrow> True | _ \<Rightarrow> False)"

definition stateOf :: "'a outcome \<Rightarrow> 'a" where
  "stateOf r = (case r of Returns x \<Rightarrow> x | Panics msg x \<Rightarrow> x | Blocks x \<Rightarrow> x)"

text \<open>The failures of a token refresh that come after the signing step.\<close>

definition failsAfterSigning :: "loginOutcome \<Rightarrow> bool" where
  "failsAfterSigning r = (r = LoginRequestFails \<or> r = LoginDoFails \<or> r = LoginDecodeFails)"

text \<open>
  A client in token mode whose stored token expired at second 1000, and a refresh at
  second 1001 during which the login endpoint cannot be reached.
\<close>

definition world1 :: world where
  "world1 = world0\<lparr>client := (client world0)\<lparr>auth := (auth (client world0))
      \<lparr>strictMode := True, token := ''token=old'', tokenExpire := 1000\<rparr>\<rparr>\<rparr>"

definition loginDown :: authEnv where
  "loginDown = \<lparr>currentTime = 1001, signTime = 1001, keyParses = True,
      signedString = Some ''assertion'', login = LoginDoFails\<rparr>"

definition env0 :: authEnv where
  "env0 = \<lparr>currentTime = 1001, signTime = 1001, keyParses = True,
      signedString = Some ''assertion'', login = LoginOk ''t''\<rparr>"

text \<open>
  Modelled from the spec: the extraction functions are registered by callers that are not
  among the sources. \<open>gaugeOf key\<close> has the shape the specification gives them: it reads
  its source key in the snapshot, returns an error when the key is absent, and otherwise
  sets its gauge, which has no labels.
\<close>

definition gaugeOf :: "string \<Rightarrow> metricsCollectorFunctor" where
  "gaugeOf key m c =
     (case m key of
        None \<Rightarrow> Returns (Some (ErrNotFoundInMap key), c)
      | Some v \<Rightarrow>
          (case c of
             GaugeVecC g \<Rightarrow> mapOutcome (\<lambda>g'. (None, GaugeVecC g')) (gvSet [] v g)
           | _ \<Rightarrow> Panics ''interface conversion'' (None, c)))"

text \<open>Two metrics of the numeric-map collector and a snapshot that lacks the key of the first.\<close>

definition uptimeMetric :: "collector \<times> metricsCollectorFunctor" where
  "uptimeMetric = (GaugeVecC (gauge ''master'' ''uptime_seconds'' ''Uptime'' []), gaugeOf ''master/uptime_secs'')"

definition electedMetric :: "collector \<times> metricsCollectorFunctor" where
  "electedMetric = (GaugeVecC (gauge ''master'' ''elected'' ''Elected'' []), gaugeOf ''master/elected'')"

definition snapshot1 :: metricMap where
  "snapshot1 = [''master/elected'' \<mapsto> 1]"

definition electedSample :: sample where
  "electedSample = \<lparr>sDesc = NewDesc ''mesos_master_elected'' ''Elected'' [],
      sType = GaugeValue, sValue = 1, sLabels = []\<rparr>"

text \<open>
  The entry of a node gauge as \<open>newMasterStateCollector\<close> builds it, the same entry once
  a scrape has set the child of one node, and the sample of that child.
\<close>

definition freshEntry :: "string \<times> string \<times> (slave \<Rightarrow> float64) \<Rightarrow> collector \<times> setter" where
  "freshEntry spec =
     (case spec of (name, hlp, f) \<Rightarrow>
        (GaugeVecC (NewGaugeVec ''mesos'' ''slave'' name hlp slaveLabels), slaveGaugeSetter f))"

definition nodeEntry :: "slave \<Rightarrow> string \<times> string \<times> (slave \<Rightarrow> float64) \<Rightarrow> collector \<times> setter" where
  "nodeEntry s spec =
     (case spec of (name, hlp, f) \<Rightarrow>
        (GaugeVecC ((NewGaugeVec ''mesos'' ''slave'' name hlp slaveLabels)
            \<lparr>gvChildren := [(slaveLabelValues s, f s)]\<rparr>), slaveGaugeSetter f))"

definition nodeSample :: "slave \<Rightarrow> string \<times> string \<times> (slave \<Rightarrow> float64) \<Rightarrow> sample" where
  "nodeSample s spec =
     (case spec of (name, hlp, f) \<Rightarrow>
        \<lparr>sDesc = NewDesc (BuildFQName ''mesos'' ''slave'' name) hlp slaveLabels,
         sType = GaugeValue, sValue = f s, sLabels = slaveLabelValues s\<rparr>)"

section \<open>Properties of the range codec\<close>

subsection \<open>Parsing what the decimal rendering prints\<close>
lemma digval_ge: "a \<le> digval a s"
proof (induction s arbitrary: a)
  case Nil
  then show ?case by simp
next
  case (Cons c cs)
  have "a \<le> 10 * a + digitVal c" by simp
  also have "\<dots> \<le> digval (10 * a + digitVal c) cs" by (rule Cons.IH)
  finally show ?case by simp
qed

lemma digval_append: "digval a (s @ t) = digval (digval a s) t"
  by (induction s arbitrary: a) auto

lemma isDigit_digitChar: "d < 10 \<Longrightarrow> isDigit (digitChar d)"
  by (simp add: isDigit_def digitChar_def)

lemma digitVal_digitChar: "d < 10 \<Longrightarrow> digitVal (digitChar d) = d"
  by (simp add: digitVal_def digitChar_def)

lemma decimal_digits: "list_all isDigit (decimal n)"
  by (induction n rule: decimal.induct) (subst decimal.simps, simp add: isDigit_digitChar)

lemma decimal_nonempty: "decimal n \<noteq> []"
  by (subst decimal.simps) simp

lemma digval_decimal: "digval 0 (decimal n) = n"
  by (induction n rule: decimal.induct)
     (subst decimal.simps, simp add: digval_append digitVal_digitChar)

lemma digitVal_lt: "isDigit c \<Longrightarrow> digitVal c < 10"
  by (auto simp: isDigit_def digitVal_def)

lemma parseUintLoop_digits:
  "list_all isDigit s \<Longrightarrow> digval (unat n) s < 2 ^ 64 \<Longrightarrow>
   parseUintLoop s0 n s = Inr (of_nat (digval (unat n) s))"
proof (induction s arbitrary: n)
  case Nil
  then show ?case by simp
next
  case (Cons c cs)
  let ?d = "digitVal c"
  have dig: "isDigit c" and rest: "list_all isDigit cs" using Cons.prems(1) by auto
  have "10 * unat n + ?d \<le> digval (10 * unat n + ?d) cs" by (rule digval_ge)
  with Cons.prems(2) have bound: "10 * unat n + ?d < 2 ^ 64" by simp
  have d10: "?d < 10" using dig by (rule digitVal_lt)
  have lt_cut: "\<not> cutoff \<le> n"
    using bound by (simp add: word_le_nat_alt cutoff_def)
  have u10: "unat (n * 10) = 10 * unat n"
    using bound by (simp add: unat_word_ariths)
  have ud: "unat (of_nat ?d :: uint64) = ?d"
    using d10 by (simp add: unat_of_nat)
  have u1: "unat (n * 10 + of_nat ?d) = 10 * unat n + ?d"
    using bound u10 ud by (simp add: unat_word_ariths)
  have nowrap: "\<not> n * 10 + of_nat ?d < n * 10"
    using u1 u10 by (simp add: word_less_nat_alt)
  have "parseUintLoop s0 (n * 10 + of_nat ?d) cs =
        Inr (of_nat (digval (unat (n * 10 + of_nat ?d)) cs))"
    using rest Cons.prems(2) u1 by (intro Cons.IH) simp_all
  then show ?case
    using dig lt_cut nowrap u1 by (simp add: Let_def)
qed

lemma parseUint_decimal:
  "n < 2 ^ 64 \<Longrightarrow> parseUint (decimal n) = Inr (of_nat n)"
  using parseUintLoop_digits[of "decimal n" 0 "decimal n"]
  by (simp add: parseUint_def decimal_nonempty decimal_digits digval_decimal)

lemma spaceRunes_ends:
  "\<forall>e \<in> set spaceRunes. e \<noteq> [] \<and> \<not> isDigit (hd e) \<and> \<not> isDigit (last e)"
  by (simp add: spaceRunes_def isDigit_def)

lemma spacePrefixLen_digit: "isDigit c \<Longrightarrow> spacePrefixLen (c # cs) = 0"
proof -
  assume d: "isDigit c"
  have "find (\<lambda>e. take (length e) (c # cs) = e) spaceRunes = None"
  proof (simp only: find_None_iff, clarify)
    fix e assume e: "e \<in> set spaceRunes" and t: "take (length e) (c # cs) = e"
    from e spaceRunes_ends have ne: "e \<noteq> []" and nd: "\<not> isDigit (hd e)" by auto
    from ne t have "hd e = c" by (cases e) auto
    with nd d show False by simp
  qed
  then show ?thesis by (simp add: spacePrefixLen_def)
qed

lemma spaceSuffixLen_digit: "isDigit c \<Longrightarrow> spaceSuffixLen (cs @ [c]) = 0"
proof -
  assume d: "isDigit c"
  let ?s = "cs @ [c]"
  have "find (\<lambda>e. length e \<le> length ?s \<and> drop (length ?s - length e) ?s = e) spaceRunes = None"
  proof (simp only: find_None_iff, clarify)
    fix e assume e: "e \<in> set spaceRunes" and t: "drop (length ?s - length e) ?s = e"
      and l: "length e \<le> length ?s"
    from e spaceRunes_ends have ne: "e \<noteq> []" and nd: "\<not> isDigit (last e)" by auto
    have "last (drop (length ?s - length e) ?s) = last ?s"
      using ne by (intro last_drop) (cases e, auto)
    with t have "last e = c" by simp
    with nd d show False by simp
  qed
  then show ?thesis by (simp add: spaceSuffixLen_def)
qed

lemma bytesTrimSpace_digits:
  assumes "s \<noteq> []" "list_all isDigit s"
  shows "bytesTrimSpace s = s"
proof -
  obtain c cs where s: "s = c # cs" using assms(1) by (cases s) auto
  then have l: "spacePrefixLen s = 0" using assms(2) by (simp add: spacePrefixLen_digit)
  obtain ds d where s': "s = ds @ [d]" using assms(1) by (cases s rule: rev_cases) auto
  then have r: "spaceSuffixLen s = 0" using assms(2) by (simp add: spaceSuffixLen_digit)
  show ?thesis
    by (simp add: bytesTrimSpace_def trimSpaceLeft.simps[of s] trimSpaceRight.simps[of s] l r)
qed

lemma bytesSplitN2_cut:
  "sep \<notin> set p0 \<Longrightarrow> bytesSplitN2 sep (p0 @ sep # p1) = [p0, p1]"
proof -
  assume n: "sep \<notin> set p0"
  have t: "takeWhile (\<lambda>c. c \<noteq> sep) (p0 @ sep # p1) = p0"
    using n by (induction p0) auto
  have d: "dropWhile (\<lambda>c. c \<noteq> sep) (p0 @ sep # p1) = sep # p1"
    using n by (induction p0) auto
  show ?thesis by (simp add: bytesSplitN2_def t d)
qed

lemma bytesSplit_none: "sep \<notin> set s \<Longrightarrow> bytesSplit sep s = [s]"
  by (induction s) auto

lemma bytesSplit_cut:
  "sep \<notin> set x \<Longrightarrow> bytesSplit sep (x @ sep # y) = x # bytesSplit sep y"
  by (induction x) auto

lemma bytesTrim_id:
  "s \<noteq> [] \<Longrightarrow> hd s \<notin> set cutset \<Longrightarrow> last s \<notin> set cutset \<Longrightarrow> bytesTrim cutset s = s"
proof -
  assume ne: "s \<noteq> []" and h: "hd s \<notin> set cutset" and l: "last s \<notin> set cutset"
  have a: "dropWhile (\<lambda>c. c \<in> set cutset) s = s"
    using ne h by (cases s) auto
  have b: "dropWhile (\<lambda>c. c \<in> set cutset) (rev s) = rev s"
    using ne l by (cases s rule: rev_cases) auto
  show ?thesis by (simp add: bytesTrim_def a b)
qed

lemma sizeLoop_sum: "sizeLoop sz rs = sz + (\<Sum>r\<leftarrow>rs. snd r - fst r + 1)"
  by (induction rs arbitrary: sz) (auto simp: algebra_simps)

subsection \<open>Decoding and size\<close>

lemma not_digit_set: "list_all isDigit s \<Longrightarrow> \<not> isDigit c \<Longrightarrow> c \<notin> set s"
  by (auto simp: list_all_iff)

lemma dash_not_digit: "\<not> isDigit (CHR ''-'')" and comma_not_digit: "\<not> isDigit (CHR '','')"
  by (simp_all add: isDigit_def)

lemma parseUint_decimal_word: "parseUint (decimal (unat (a :: uint64))) = Inr a"
proof -
  have "unat a < 2 ^ 64" using unsigned_less[of a] by simp
  then show ?thesis by (simp add: parseUint_decimal)
qed

lemma decodeSegment_decimal:
  "decodeSegment (decimal (unat a) @ CHR ''-'' # decimal (unat b)) = Inr (a, b)"
proof -
  have "CHR ''-'' \<notin> set (decimal (unat a))"
    by (rule not_digit_set[OF decimal_digits dash_not_digit])
  then have "bytesSplitN2 (CHR ''-'') (decimal (unat a) @ CHR ''-'' # decimal (unat b))
             = [decimal (unat a), decimal (unat b)]"
    by (rule bytesSplitN2_cut)
  then show ?thesis
    by (simp add: decodeSegment_def bytesTrimSpace_digits decimal_nonempty decimal_digits
        parseUint_decimal_word)
qed

lemma rangeText_no_comma: "CHR '','' \<notin> set (rangeText lo hi)"
  using not_digit_set[OF decimal_digits comma_not_digit]
  by (simp add: rangeText_def)

lemma rangeText_ends:
  "rangeText lo hi \<noteq> [] \<and> isDigit (hd (rangeText lo hi)) \<and> isDigit (last (rangeText lo hi))"
proof -
  have a: "decimal (unat lo) \<noteq> []" and b: "decimal (unat hi) \<noteq> []" by (rule decimal_nonempty)+
  have "isDigit (hd (decimal (unat lo)))"
    using a decimal_digits[of "unat lo"] by (cases "decimal (unat lo)") auto
  moreover have "isDigit (last (decimal (unat hi)))"
    using b decimal_digits[of "unat hi"] by (cases "decimal (unat hi)" rule: rev_cases) auto
  ultimately show ?thesis using a b by (simp add: rangeText_def)
qed

lemma cutset_not_digit: "isDigit c \<Longrightarrow> c \<notin> set ''[]\"''"
  by (auto simp: isDigit_def)

lemma bytesTrim_wrapped:
  assumes "set pre \<subseteq> set cutset" "set suf \<subseteq> set cutset"
    and "s \<noteq> []" "hd s \<notin> set cutset" "last s \<notin> set cutset"
  shows "bytesTrim cutset (pre @ s @ suf) = s"
proof -
  have a: "dropWhile (\<lambda>c. c \<in> set cutset) (pre @ s @ suf) = s @ suf"
    using assms(1,3,4) by (induction pre) (auto simp: dropWhile_eq_self_iff)
  have b: "dropWhile (\<lambda>c. c \<in> set cutset) (rev suf @ rev s) = rev s"
    using assms(2,3,5) by (induction suf rule: rev_induct) (auto simp: dropWhile_eq_self_iff hd_rev)
  show ?thesis by (simp add: bytesTrim_def a b)
qed

lemma UnmarshalJSON_two:
  assumes "set pre \<subseteq> set ''[]\"''" "set suf \<subseteq> set ''[]\"''"
  shows "UnmarshalJSON [] (pre @ rangeText a b @ CHR '','' # rangeText c d @ suf)
         = (None, [(a, b), (c, d)])"
proof -
  let ?t = "rangeText a b @ CHR '','' # rangeText c d"
  have ne: "?t \<noteq> []" by simp
  have h: "hd ?t \<notin> set ''[]\"''"
    using rangeText_ends[of a b] by (simp add: cutset_not_digit del: set_simps list.set)
  have l: "last ?t \<notin> set ''[]\"''"
    using rangeText_ends[of c d] by (simp add: cutset_not_digit del: set_simps list.set)
  have "bytesTrim ''[]\"'' (pre @ ?t @ suf) = ?t"
    by (rule bytesTrim_wrapped[OF assms ne h l])
  then have tr: "bytesTrim ''[]\"'' (pre @ rangeText a b @ CHR '','' # rangeText c d @ suf) = ?t"
    by simp
  have sp: "bytesSplit (CHR '','') ?t = [rangeText a b, rangeText c d]"
    by (simp add: bytesSplit_cut bytesSplit_none rangeText_no_comma)
  show ?thesis
    unfolding UnmarshalJSON_def Let_def tr sp
    by (simp add: rangeText_def decodeSegment_decimal)
qed

lemma uint_sum_list:
  "uint (sum_list (map f rs) :: uint64) = (\<Sum>r\<leftarrow>rs. uint (f r)) mod 2 ^ 64"
  by (induction rs) (simp_all add: uint_word_ariths mod_add_right_eq)

lemma uint_interval:
  "uint (hi - lo + 1 :: uint64) = (uint hi - uint lo + 1) mod 2 ^ 64"
  by (simp add: uint_word_ariths mod_add_left_eq)

lemma sum_list_mod:
  "(\<Sum>r\<leftarrow>rs. f r mod m) mod m = (\<Sum>r\<leftarrow>rs. f r) mod (m :: int)"
proof (induction rs)
  case Nil
  then show ?case by simp
next
  case (Cons a rs)
  have "(f a mod m + (\<Sum>r\<leftarrow>rs. f r mod m)) mod m = (f a + (\<Sum>r\<leftarrow>rs. f r)) mod m"
    by (rule mod_add_cong) (simp_all add: Cons.IH)
  then show ?case by simp
qed

lemma size_ranges_uint:
  "uint (size_ranges rs) = (\<Sum>r\<leftarrow>rs. uint (snd r) - uint (fst r) + 1) mod 2 ^ 64"
proof -
  have "uint (size_ranges rs) = (\<Sum>r\<leftarrow>rs. uint (snd r - fst r + 1)) mod 2 ^ 64"
    by (simp add: size_ranges_def sizeLoop_sum uint_sum_list)
  also have "\<dots> = (\<Sum>r\<leftarrow>rs. (uint (snd r) - uint (fst r) + 1) mod 2 ^ 64) mod 2 ^ 64"
    by (simp add: uint_interval)
  also have "\<dots> = (\<Sum>r\<leftarrow>rs. uint (snd r) - uint (fst r) + 1) mod 2 ^ 64"
    by (rule sum_list_mod)
  finally show ?thesis .
qed

text \<open>
  Claim C6. \<open>size\<close> is the sum over the intervals of \<open>hi - lo + 1\<close>, taken modulo
  \<open>2 ^ 64\<close>. Decoding the text \<open>a-b,c-d\<close>, bare or wrapped in quotes and brackets,
  yields the two intervals, so its size is \<open>(b - a + 1) + (d - c + 1)\<close> modulo \<open>2 ^ 64\<close>,
  whether or not \<open>lo \<le> hi\<close>: \<open>0-100,200-200\<close> has size 102, and \<open>5-3\<close> wraps to
  \<open>2 ^ 64 - 1\<close>.
\<close>

theorem size_ranges_inclusive_sum:
  assumes "set pre \<subseteq> set ''[]\"''" and "set suf \<subseteq> set ''[]\"''"
  shows "uint (size_ranges rs) = (\<Sum>r\<leftarrow>rs. uint (snd r) - uint (fst r) + 1) mod 2 ^ 64
   \<and> UnmarshalJSON [] (pre @ rangeText a b @ CHR '','' # rangeText c d @ suf)
       = (None, [(a, b), (c, d)])
   \<and> uint (size_ranges (snd (UnmarshalJSON [] (pre @ rangeText a b @ CHR '','' # rangeText c d @ suf))))
       = ((uint b - uint a + 1) + (uint d - uint c + 1)) mod 2 ^ 64
   \<and> size_ranges (snd (UnmarshalJSON [] ''0-100,200-200'')) = 102
   \<and> size_ranges (snd (UnmarshalJSON [] ''5-3'')) = 18446744073709551615"
proof -
  have e1: "size_ranges (snd (UnmarshalJSON [] ''0-100,200-200'')) = 102" by code_simp
  have e2: "size_ranges (snd (UnmarshalJSON [] ''5-3'')) = 18446744073709551615" by code_simp
  show ?thesis
    by (simp only: e1 e2 UnmarshalJSON_two[OF assms] size_ranges_uint snd_conv fst_conv list.map
        sum_list.Cons sum_list.Nil) simp
qed

text \<open>
  The theorem at the quoted and bracketed text \<open>"[0-100,200-200]"\<close> and at a range set
  with a reversed interval.
\<close>

theorem size_ranges_inclusive_sum_witness:
  "set ''\"['' \<subseteq> set ''[]\"'' \<and> set '']\"'' \<subseteq> set ''[]\"''
   \<and> uint (size_ranges [(5, 3), (0, 100)]) = 100
   \<and> UnmarshalJSON [] (''\"['' @ rangeText 0 100 @ CHR '','' # rangeText 200 200 @ '']\"'')
       = (None, [(0, 100), (200, 200)])"
proof -
  have p: "set ''\"['' \<subseteq> set ''[]\"''" and q: "set '']\"'' \<subseteq> set ''[]\"''" by simp_all
  show ?thesis
    using size_ranges_inclusive_sum [OF p q, of "[(5, 3), (0, 100)]" 0 100 200 200] p q by simp
qed

subsection \<open>Malformed input\<close>











section \<open>Properties of the metric caches\<close>

lemma sendAll_out: "out (sendAll vs w) = out w @ map Some vs"
  by (induction vs arbitrary: w) (simp_all add: send_def)

lemma cvSet_Returns:
  "cvSet v l c = Returns c' \<Longrightarrow> c' = c\<lparr>cvValues := cvValues c @ [cvSample c (v, l)]\<rparr>"
  by (auto simp: cvSet_def MustNewConstMetric_def cvSample_def split: option.splits if_splits)

lemma cvSets_Returns:
  "cvSets calls c = Returns c' \<Longrightarrow>
   cvDesc c' = cvDesc c \<and> cvValues c' = cvValues c @ map (cvSample c) calls"
proof (induction calls arbitrary: c)
  case Nil
  then show ?case by simp
next
  case (Cons call calls)
  obtain v l where call: "call = (v, l)" by (cases call)
  from Cons.prems obtain c1 where s: "cvSet v l c = Returns c1" and r: "cvSets calls c1 = Returns c'"
    by (auto simp: call split: outcome.splits)
  from cvSet_Returns[OF s] have c1: "cvDesc c1 = cvDesc c"
    "cvValues c1 = cvValues c @ [cvSample c (v, l)]" by simp_all
  have "cvSample c1 = cvSample c" by (rule ext) (simp add: cvSample_def c1)
  with Cons.IH[OF r] c1 show ?case by (simp add: call)
qed

lemma cvSets_total:
  "descErr (cvDesc c) = None \<Longrightarrow> list_all (\<lambda>call. length (snd call) = length (variableLabels (cvDesc c))) calls \<Longrightarrow>
   \<exists>c'. cvSets calls c = Returns c'"
proof (induction calls arbitrary: c)
  case Nil
  then show ?case by simp
next
  case (Cons call calls)
  obtain v l where call: "call = (v, l)" by (cases call)
  let ?c1 = "c\<lparr>cvValues := cvValues c @ [cvSample c (v, l)]\<rparr>"
  have s: "cvSet v l c = Returns ?c1"
    using Cons.prems by (simp add: call cvSet_def MustNewConstMetric_def cvSample_def)
  have "\<exists>c'. cvSets calls ?c1 = Returns c'"
    using Cons.prems by (intro Cons.IH) simp_all
  then show ?case by (simp add: call s)
qed

text \<open>
  Claim C5. After any sequence of \<open>Set\<close> calls that return, the buffer holds what it held
  before followed by one sample per call, in call order; a drain sends exactly the buffered
  samples, each once, and leaves the buffer empty, so a second drain with no \<open>Set\<close> in
  between sends nothing.
\<close>

theorem cvCollect_drains_once:
  assumes "cvSets calls c = Returns c'"
  shows "cvValues c' = cvValues c @ map (cvSample c) calls
     \<and> out (snd (cvCollect c' w)) = out w @ map Some (cvValues c')
     \<and> cvValues (fst (cvCollect c' w)) = []
     \<and> out (snd (cvCollect (fst (cvCollect c' w)) w')) = out w'"
  using cvSets_Returns[OF assms] by (simp add: cvCollect_def sendAll_out)

text \<open>Two \<open>Set\<close> calls on the attribute cache with two labels, then a drain: two samples.\<close>

theorem cvCollect_drains_once_witness:
  "cvSets [(1, [''a'', ''x'']), (1, [''b'', ''y''])] (counter ''slave'' ''attributes'' ''h'' [''slave'', ''rack''])
     = Returns ((counter ''slave'' ''attributes'' ''h'' [''slave'', ''rack''])
          \<lparr>cvValues := map (cvSample (counter ''slave'' ''attributes'' ''h'' [''slave'', ''rack'']))
              [(1, [''a'', ''x'']), (1, [''b'', ''y''])]\<rparr>)
   \<and> length (out (snd (cvCollect ((counter ''slave'' ''attributes'' ''h'' [''slave'', ''rack''])
          \<lparr>cvValues := map (cvSample (counter ''slave'' ''attributes'' ''h'' [''slave'', ''rack'']))
              [(1, [''a'', ''x'']), (1, [''b'', ''y''])]\<rparr>) world0))) = 2"
proof -
  let ?c = "counter ''slave'' ''attributes'' ''h'' [''slave'', ''rack'']"
  let ?calls = "[(1, [''a'', ''x'']), (1, [''b'', ''y''])] :: (float64 \<times> string list) list"
  let ?c' = "?c\<lparr>cvValues := map (cvSample ?c) ?calls\<rparr>"
  have ok: "descErr (cvDesc ?c) = None"
    by (simp add: counter_def NewDesc_def BuildFQName_def isValidMetricName_def checkLabelName_def
        isNameStart_def isWordChar_def isLetter_def isDigit_def)
  have r: "cvSets ?calls ?c = Returns ?c'"
    using ok by (simp add: cvSet_def MustNewConstMetric_def cvSample_def counter_def NewDesc_def)
  show ?thesis
    using cvCollect_drains_once[OF r, of world0 world0] r by (simp add: world0_def)
qed

lemma cSet_Returns:
  "cSet v c = Returns c' \<Longrightarrow>
   \<exists>d. cDesc c = Some d \<and> c' = c\<lparr>cValue := Some \<lparr>sDesc = d, sType = CounterValue, sValue = v, sLabels = []\<rparr>\<rparr>"
  by (auto simp: cSet_def MustNewConstMetric_def split: option.splits if_splits)

text \<open>
  Claim C4, as the code has it. The unkeyed counter does not follow the drain discipline of
  the dynamic-label cache: after a \<open>Set\<close> that returns, every drain sends exactly one
  sample, the one stored by that \<open>Set\<close>, and leaves the counter as it was, so a second
  drain with no \<open>Set\<close> in between sends the same sample again.
\<close>

theorem cCollect_keeps_value:
  assumes "cSet v c = Returns c'"
  shows "\<exists>m. cValue c' = Some m \<and> sValue m = v
     \<and> cCollect c' w = (c', send (Some m) w)
     \<and> out (snd (cCollect (fst (cCollect c' w)) (snd (cCollect c' w)))) = out w @ [Some m, Some m]"
  using cSet_Returns[OF assms] by (auto simp: cCollect_def send_def)

lemma uptime_desc_ok: "descErr (NewDesc ''mesos_master_uptime_seconds'' ''Uptime'' []) = None"
  by (simp add: NewDesc_def isValidMetricName_def isNameStart_def isWordChar_def isLetter_def isDigit_def)

lemma NewDesc_variableLabels: "variableLabels (NewDesc n h ls) = ls"
  by (simp add: NewDesc_def)

lemma cSet_uptime: "cSet 5 uptimeCounter = Returns (uptimeCounter\<lparr>cValue := Some uptimeSample\<rparr>)"
  using uptime_desc_ok
  by (simp add: cSet_def uptimeCounter_def newSettableCounter_def MustNewConstMetric_def
      BuildFQName_def uptimeSample_def NewDesc_variableLabels)

text \<open>The theorem at \<open>Set(5)\<close> on a counter just built.\<close>

theorem cCollect_keeps_value_witness:
  "cSet 5 uptimeCounter = Returns (uptimeCounter\<lparr>cValue := Some uptimeSample\<rparr>)
   \<and> out (snd (cCollect (fst (cCollect (uptimeCounter\<lparr>cValue := Some uptimeSample\<rparr>) world0))
        (snd (cCollect (uptimeCounter\<lparr>cValue := Some uptimeSample\<rparr>) world0))))
      = [Some uptimeSample, Some uptimeSample]"
  using cCollect_keeps_value[OF cSet_uptime, of world0] cSet_uptime
  by (auto simp: world0_def)

text \<open>
  Claim C4 as stated fails: after \<open>Set(5)\<close> and one drain, a second drain on a fresh
  channel sends one sample, not none.
\<close>

theorem cCollect_second_drain_counterexample:
  "cSet 5 uptimeCounter = Returns (uptimeCounter\<lparr>cValue := Some uptimeSample\<rparr>)
   \<and> out (snd (cCollect (uptimeCounter\<lparr>cValue := Some uptimeSample\<rparr>) world0)) = [Some uptimeSample]
   \<and> out (snd (cCollect (fst (cCollect (uptimeCounter\<lparr>cValue := Some uptimeSample\<rparr>) world0)) world0))
      = [Some uptimeSample]"
  using cSet_uptime by (simp add: cCollect_def send_def world0_def)

text \<open>
  Claim C10. A drain of an unkeyed counter on which \<open>Set\<close> was never called logs the
  warning and still sends the nil value on the channel.
\<close>

theorem cCollect_before_Set_sends_nil:
  "cCollect (newSettableCounter subsystem name hlp) w
     = (newSettableCounter subsystem name hlp, send None (logAt Warn ''NIL value'' w))
   \<and> out (snd (cCollect (newSettableCounter subsystem name hlp) w)) = out w @ [None]
   \<and> logs (snd (cCollect (newSettableCounter subsystem name hlp) w)) = logs w @ [(Warn, ''NIL value'')]"
  by (simp add: cCollect_def newSettableCounter_def send_def logAt_def)

section \<open>Properties of the attribute translator\<close>

lemma foldl_snoc_map: "foldl (\<lambda>acc x. acc @ [f x]) a xs = a @ map f xs"
  by (induction xs arbitrary: a) simp_all

lemma getLabelValuesFromMap_map: "getLabelValuesFromMap m ks = map (labelAt m) ks"
  by (simp add: getLabelValuesFromMap_def foldl_snoc_map)


lemma stringInSlice_set: "stringInSlice s xs \<longleftrightarrow> s \<in> set xs"
  by (induction xs) auto

lemma foldl_empty_labels:
  "foldl (\<lambda>export l. export(l \<mapsto> [])) m nls l = (if l \<in> set nls then Some [] else m l)"
  by (induction nls arbitrary: m) auto

lemma acceptedFor_Cons:
  "acceptedFor l (attr # attrs) =
     (if normaliseLabel (fst attr) = l
      then (case attributeString (snd attr) of Inr a \<Rightarrow> [a] | Inl e \<Rightarrow> [])
      else []) @ acceptedFor l attrs"
  by (simp add: acceptedFor_def)

lemma acceptedFor_Nil: "acceptedFor l [] = []"
  by (simp add: acceptedFor_def)

lemma putAttribute_apply:
  "putAttribute nls m attr l =
     (if l \<in> set nls \<and> acceptedFor l [attr] \<noteq> [] then Some (last (acceptedFor l [attr])) else m l)"
  by (cases "attributeString (snd attr)")
     (auto simp: putAttribute_def Let_def stringInSlice_set acceptedFor_def)

lemma acceptedFor_Cons':
  "acceptedFor l (attr # attrs) = acceptedFor l [attr] @ acceptedFor l attrs"
  by (simp add: acceptedFor_def)

lemma foldl_putAttribute:
  "foldl (putAttribute nls) m attrs l =
     (if l \<in> set nls \<and> acceptedFor l attrs \<noteq> [] then Some (last (acceptedFor l attrs)) else m l)"
proof (induction attrs arbitrary: m)
  case Nil
  then show ?case by (simp add: acceptedFor_Nil)
next
  case (Cons attr attrs)
  have "foldl (putAttribute nls) m (attr # attrs) l
        = foldl (putAttribute nls) (putAttribute nls m attr) attrs l" by simp
  also have "\<dots> = (if l \<in> set nls \<and> acceptedFor l attrs \<noteq> []
                    then Some (last (acceptedFor l attrs)) else putAttribute nls m attr l)"
    by (rule Cons.IH)
  also have "\<dots> = (if l \<in> set nls \<and> acceptedFor l (attr # attrs) \<noteq> []
                    then Some (last (acceptedFor l (attr # attrs))) else m l)"
    by (auto simp: putAttribute_apply acceptedFor_Cons'[of l attr attrs])
  finally show ?case .
qed

lemma labelAt_export:
  "labelAt (slaveAttributesExport nls s) l =
     (if l \<in> set nls
      then (if acceptedFor l (Attributes s) = [] then [] else last (acceptedFor l (Attributes s)))
      else if l = ''slave'' then PID s else [])"
  by (simp add: labelAt_def slaveAttributesExport_def foldl_putAttribute foldl_empty_labels)

lemma setAttributes_Returns:
  assumes "descErr (cvDesc c) = None" and "length els = length (variableLabels (cvDesc c))"
  shows "setAttributes nls els ss c =
     Returns (c\<lparr>cvValues := cvValues c @ map (\<lambda>s. cvSample c (1, slaveAttributeValues nls els s)) ss\<rparr>)"
  using assms
proof (induction ss arbitrary: c)
  case Nil
  then show ?case by simp
next
  case (Cons s ss)
  let ?c1 = "c\<lparr>cvValues := cvValues c @ [cvSample c (1, slaveAttributeValues nls els s)]\<rparr>"
  have len: "length (slaveAttributeValues nls els s) = length (variableLabels (cvDesc c))"
    using Cons.prems(2) by (simp add: slaveAttributeValues_def getLabelValuesFromMap_map)
  have s: "cvSet 1 (slaveAttributeValues nls els s) c = Returns ?c1"
    using Cons.prems(1) len by (simp add: cvSet_def MustNewConstMetric_def cvSample_def)
  have sm: "cvSample ?c1 = cvSample c" by (rule ext) (simp add: cvSample_def)
  have "setAttributes nls els ss ?c1 =
     Returns (?c1\<lparr>cvValues := cvValues ?c1 @ map (\<lambda>s. cvSample ?c1 (1, slaveAttributeValues nls els s)) ss\<rparr>)"
    using Cons.prems by (intro Cons.IH) simp_all
  then show ?case by (simp add: s sm)
qed

lemma setAttributes_Panics:
  "descErr (cvDesc c) = Some e \<Longrightarrow> ss \<noteq> [] \<Longrightarrow> setAttributes nls els ss c = Panics e c"
  by (cases ss) (simp_all add: cvSet_def MustNewConstMetric_def)

lemma range_chars:
  assumes "a \<le> (of_char c :: nat)" "of_char c \<le> b"
  shows "c \<in> set (map char_of [a..<Suc b])"
proof -
  have "(of_char c :: nat) \<in> set [a..<Suc b]" using assms by auto
  then have "char_of (of_char c :: nat) \<in> char_of ` set [a..<Suc b]" by (rule imageI)
  then show ?thesis by simp
qed

lemma lower_chars: "map char_of [97..<Suc 122 :: nat] = ''abcdefghijklmnopqrstuvwxyz''"
  by code_simp

lemma upper_chars: "map char_of [65..<Suc 90 :: nat] = ''ABCDEFGHIJKLMNOPQRSTUVWXYZ''"
  by code_simp

lemma digit_chars: "map char_of [48..<Suc 57 :: nat] = ''0123456789''"
  by code_simp

lemma isLetter_set: "isLetter c \<Longrightarrow> c \<in> set ''abcdefghijklmnopqrstuvwxyzABCDEFGHIJKLMNOPQRSTUVWXYZ''"
proof -
  assume "isLetter c"
  then consider "97 \<le> (of_char c :: nat)" "(of_char c :: nat) \<le> 122"
    | "65 \<le> (of_char c :: nat)" "(of_char c :: nat) \<le> 90"
    by (auto simp: isLetter_def)
  then show ?thesis
  proof cases
    case 1
    from range_chars[OF 1] show ?thesis unfolding lower_chars by auto
  next
    case 2
    from range_chars[OF 2] show ?thesis unfolding upper_chars by auto
  qed
qed

lemma isDigit_set: "isDigit c \<Longrightarrow> c \<in> set ''0123456789''"
proof -
  assume "isDigit c"
  then have "48 \<le> (of_char c :: nat)" "(of_char c :: nat) \<le> 57" by (auto simp: isDigit_def)
  from range_chars[OF this] show ?thesis unfolding digit_chars .
qed

lemma isTextChar_charset: "isTextChar c \<longleftrightarrow> c \<in> textCharset"
proof
  assume "isTextChar c"
  then consider "isLetter c" | "isDigit c" | "c = CHR ''_''" | "c = CHR ''-''" | "c = CHR ''/''" | "c = CHR ''.''"
    by (auto simp: isTextChar_def isWordChar_def)
  then show "c \<in> textCharset"
  proof cases
    case 1
    from isLetter_set[OF 1] show ?thesis by (auto simp: textCharset_def)
  next
    case 2
    from isDigit_set[OF 2] show ?thesis by (auto simp: textCharset_def)
  qed (simp_all add: textCharset_def)
next
  assume "c \<in> textCharset"
  then have "list_ex (\<lambda>x. c = x) ''abcdefghijklmnopqrstuvwxyzABCDEFGHIJKLMNOPQRSTUVWXYZ0123456789_-/.''"
    by (simp add: textCharset_def list_ex_iff)
  moreover have "list_all isTextChar ''abcdefghijklmnopqrstuvwxyzABCDEFGHIJKLMNOPQRSTUVWXYZ0123456789_-/.''"
    by code_simp
  ultimately show "isTextChar c" by (auto simp: list_all_iff list_ex_iff)
qed

lemma list_all_isTextChar: "list_all isTextChar v \<longleftrightarrow> set v \<subseteq> textCharset"
  by (auto simp: list_all_iff isTextChar_charset)

lemma acceptedFor_single_empty:
  "acceptedFor l [attr] = [] \<longleftrightarrow>
   (normaliseLabel (fst attr) = l \<longrightarrow> (\<exists>e. attributeString (snd attr) = Inl e))"
  by (cases "attributeString (snd attr)") (simp_all add: acceptedFor_def)



lemma acceptedFor_empty:
  "acceptedFor l attrs = [] \<longleftrightarrow>
   (\<forall>attr\<in>set attrs. normaliseLabel (fst attr) = l \<longrightarrow> (\<exists>e. attributeString (snd attr) = Inl e))"
proof (induction attrs)
  case Nil
  show ?case by (simp add: acceptedFor_Nil)
next
  case (Cons x xs)
  have "acceptedFor l (x # xs) = [] \<longleftrightarrow> acceptedFor l [x] = [] \<and> acceptedFor l xs = []"
    by (simp add: acceptedFor_Cons'[of l x xs])
  then show ?case by (simp add: Cons.IH acceptedFor_single_empty)
qed


lemma attributeString_error: "attributeString a = Inl e \<Longrightarrow> e = ErrDropAttribute"
  by (auto simp: attributeString_def Let_def split: if_splits)

lemma putAttribute_rejected:
  "attributeString (snd attr) = Inl e \<Longrightarrow> putAttribute nls export attr = export"
  by (simp add: putAttribute_def Let_def)



text \<open>
  Claim C7, as the code has it. \<open>attributeString\<close> keeps a value exactly when, with the
  quote characters at its ends removed, every character is a word character, \<open>-\<close>,
  \<open>/\<close> or \<open>.\<close>, and rejects it with an error otherwise: \<open>"abc/def.gh"\<close> is kept,
  \<open>"a b"\<close> is rejected. A rejected value writes nothing into the label map, so its label
  is empty when every attribute of the node with that normalised key is rejected, and the
  sample of the node is built all the same.
\<close>

theorem attributeString_keeps_text:
  "attributeString a =
     (if set (bytesTrim ''\"'' a) \<subseteq> textCharset then Inr (bytesTrim ''\"'' a) else Inl ErrDropAttribute)
   \<and> attributeString ''\"abc/def.gh\"'' = Inr ''abc/def.gh''
   \<and> attributeString ''\"a b\"'' = Inl ErrDropAttribute
   \<and> (attributeString (snd attr) = Inl ErrDropAttribute \<longrightarrow> putAttribute nls export attr = export)
   \<and> (l \<in> set nls \<longrightarrow>
        (\<forall>x\<in>set (Attributes s). normaliseLabel (fst x) = l \<longrightarrow> attributeString (snd x) = Inl ErrDropAttribute) \<longrightarrow>
        labelAt (slaveAttributesExport nls s) l = [])
   \<and> (descErr (cvDesc c) = None \<longrightarrow> length els = length (variableLabels (cvDesc c)) \<longrightarrow>
        setAttributes nls els ss c =
          Returns (c\<lparr>cvValues := cvValues c @ map (\<lambda>s. cvSample c (1, slaveAttributeValues nls els s)) ss\<rparr>))"
proof -
  have e1: "attributeString ''\"abc/def.gh\"'' = Inr ''abc/def.gh''" by code_simp
  have e2: "attributeString ''\"a b\"'' = Inl ErrDropAttribute" by code_simp
  have g: "attributeString a =
     (if set (bytesTrim ''\"'' a) \<subseteq> textCharset then Inr (bytesTrim ''\"'' a) else Inl ErrDropAttribute)"
    by (simp add: attributeString_def Let_def list_all_isTextChar)
  have r: "l \<in> set nls \<longrightarrow>
        (\<forall>x\<in>set (Attributes s). normaliseLabel (fst x) = l \<longrightarrow> attributeString (snd x) = Inl ErrDropAttribute) \<longrightarrow>
        labelAt (slaveAttributesExport nls s) l = []"
    by (auto simp: labelAt_export acceptedFor_empty)
  show ?thesis
    using e1 e2 g r putAttribute_rejected setAttributes_Returns by blast
qed

text \<open>The theorem at a node whose only attribute, \<open>rack\<close>, has the value \<open>"a b"\<close>.\<close>

theorem attributeString_keeps_text_witness:
  "attributeString ''\"a b\"'' = Inl ErrDropAttribute
   \<and> putAttribute [''rack''] Map.empty (''rack'', ''\"a b\"'') = Map.empty
   \<and> labelAt (slaveAttributesExport [''rack''] (node1\<lparr>Attributes := [(''rack'', ''\"a b\"'')]\<rparr>)) ''rack'' = []
   \<and> setAttributes [''rack''] (slaveLabels @ [''rack'']) [node1\<lparr>Attributes := [(''rack'', ''\"a b\"'')]\<rparr>]
        (attributesCounter [''rack''])
      = Returns ((attributesCounter [''rack''])\<lparr>cvValues :=
          [cvSample (attributesCounter [''rack'']) (1, [''slave(1)@10.0.0.1:5051'', [], [], [], []])]\<rparr>)"
proof -
  let ?s = "node1\<lparr>Attributes := [(''rack'', ''\"a b\"'')]\<rparr>"
  let ?c = "attributesCounter [''rack'']"
  have h1: "attributeString (snd (''rack'', ''\"a b\"'')) = Inl ErrDropAttribute" by code_simp
  have h2: "''rack'' \<in> set [''rack'']" by simp
  have h3: "\<forall>x\<in>set (Attributes ?s). normaliseLabel (fst x) = ''rack'' \<longrightarrow> attributeString (snd x) = Inl ErrDropAttribute"
    using h1 by (simp add: node1_def)
  have h4: "descErr (cvDesc ?c) = None" by code_simp
  have h5: "length (slaveLabels @ [''rack'']) = length (variableLabels (cvDesc ?c))" by code_simp
  have v: "slaveAttributeValues [''rack''] (slaveLabels @ [''rack'']) ?s = [''slave(1)@10.0.0.1:5051'', [], [], [], []]"
    by code_simp
  have c0: "cvValues ?c = []" by (simp add: attributesCounter_def counter_def)
  show ?thesis
    using attributeString_keeps_text[of "''\"a b\"''" "(''rack'', ''\"a b\"'')" "[''rack'']" Map.empty
        "''rack''" ?s ?c "slaveLabels @ [''rack'']" "[?s]"] h1 h2 h3 h4 h5
    by (simp add: v c0)
qed

text \<open>
  Claim C7 as stated fails twice: \<open>"a-b"\<close> is kept although \<open>-\<close> is none of the
  characters the claim lists, and a node with the attributes \<open>a.b\<close> (rejected value) and
  \<open>a-b\<close> (accepted value \<open>v\<close>) has the label \<open>a_b\<close> set to \<open>v\<close>, not empty.
\<close>

theorem attributeString_charset_counterexample:
  "attributeString ''\"a-b\"'' = Inr ''a-b''
   \<and> \<not> set ''a-b'' \<subseteq> claimedCharset
   \<and> attributeString ''\"x y\"'' = Inl ErrDropAttribute
   \<and> labelAt (slaveAttributesExport [''a_b'']
        (node1\<lparr>Attributes := [(''a.b'', ''\"x y\"''), (''a-b'', ''\"v\"'')]\<rparr>)) ''a_b'' = ''v''"
proof -
  have a: "attributeString ''\"a-b\"'' = Inr ''a-b''" by code_simp
  have b: "\<not> set ''a-b'' \<subseteq> claimedCharset" by (simp add: claimedCharset_def)
  have c: "attributeString ''\"x y\"'' = Inl ErrDropAttribute" by code_simp
  have d: "labelAt (slaveAttributesExport [''a_b'']
        (node1\<lparr>Attributes := [(''a.b'', ''\"x y\"''), (''a-b'', ''\"v\"'')]\<rparr>)) ''a_b'' = ''v''"
    by code_simp
  show ?thesis using a b c d by simp
qed




section \<open>Properties of the token cache\<close>

lemma signingToken_state:
  "tokenExpire (auth (client (snd (signingToken env w)))) = signTime env + 3600
   \<and> token (auth (client (snd (signingToken env w)))) = token (auth (client w))"
  by (simp add: signingToken_def Let_def setTokenExpire_def logAt_def split: option.split)

lemma authToken_skips:
  "\<not> currentTime env > tokenExpire (auth (client w)) \<Longrightarrow>
   authToken env w = (token (auth (client w)), w)"
  by (simp add: authToken_def)

text \<open>
  Claim C9. When the refresh runs and fails after the signing step, at the request, on the
  network or in the decoding of the response, \<open>authToken\<close> returns the empty string, the
  stored expiry is the signing time plus one hour and the stored token is the old one; every
  later call whose clock is not past that expiry skips the refresh and returns the old
  token without changing the state. The failed call has changed the stored expiry whenever
  the clock did not run backwards between its two readings.
\<close>

theorem authToken_failure_advances_expiry:
  assumes "currentTime env > tokenExpire (auth (client w))"
    and "failsAfterSigning (login env)"
  shows "fst (authToken env w) = []
     \<and> tokenExpire (auth (client (snd (authToken env w)))) = signTime env + 3600
     \<and> token (auth (client (snd (authToken env w)))) = token (auth (client w))
     \<and> (\<forall>env'. currentTime env' \<le> signTime env + 3600 \<longrightarrow>
           authToken env' (snd (authToken env w)) = (token (auth (client w)), snd (authToken env w)))
     \<and> (currentTime env \<le> signTime env \<longrightarrow>
           tokenExpire (auth (client (snd (authToken env w)))) \<noteq> tokenExpire (auth (client w)))"
proof -
  obtain s w1 where st: "signingToken env w = (s, w1)" by (cases "signingToken env w")
  have w1: "tokenExpire (auth (client w1)) = signTime env + 3600"
    "token (auth (client w1)) = token (auth (client w))"
    using signingToken_state[of env w] by (simp_all add: st)
  obtain w' where r: "authToken env w = ([], w')"
    and e: "tokenExpire (auth (client w')) = signTime env + 3600"
    and t: "token (auth (client w')) = token (auth (client w))"
    using assms w1
    by (auto simp: authToken_def st failsAfterSigning_def logAt_def errorCounterInc_def)
  have skip: "\<forall>env'. currentTime env' \<le> signTime env + 3600 \<longrightarrow>
           authToken env' w' = (token (auth (client w)), w')"
    using e t by (simp add: authToken_skips)
  show ?thesis using r e t skip assms(1) by simp
qed

text \<open>The theorem for the login endpoint down at second 1001, and a call one hour later.\<close>

theorem authToken_failure_advances_expiry_witness:
  "currentTime loginDown > tokenExpire (auth (client world1))
   \<and> failsAfterSigning (login loginDown)
   \<and> fst (authToken loginDown world1) = []
   \<and> tokenExpire (auth (client (snd (authToken loginDown world1)))) = 4601
   \<and> authToken (loginDown\<lparr>currentTime := 4601\<rparr>) (snd (authToken loginDown world1))
       = (''token=old'', snd (authToken loginDown world1))"
proof -
  have h1: "currentTime loginDown > tokenExpire (auth (client world1))"
    by (simp add: loginDown_def world1_def world0_def)
  have h2: "failsAfterSigning (login loginDown)"
    by (simp add: loginDown_def failsAfterSigning_def)
  have h3: "currentTime (loginDown\<lparr>currentTime := 4601\<rparr>) \<le> signTime loginDown + 3600"
    by (simp add: loginDown_def)
  have t: "token (auth (client world1)) = ''token=old''" by (simp add: world1_def world0_def)
  have s: "signTime loginDown + 3600 = 4601" by (simp add: loginDown_def)
  show ?thesis
    using authToken_failure_advances_expiry[OF h1 h2] h1 h2 h3 t s by simp
qed

section \<open>Properties of the collectors\<close>

lemma stateOf_mapOutcome: "stateOf (mapOutcome g r) = g (stateOf r)"
  by (cases r) (simp_all add: stateOf_def mapOutcome_def)

lemma isReturns_mapOutcome: "isReturns (mapOutcome g r) = isReturns r"
  by (cases r) (simp_all add: isReturns_def mapOutcome_def)

lemma sendAll_errorCounter: "errorCounter (sendAll vs w) = errorCounter w"
  by (induction vs arbitrary: w) (simp_all add: send_def)

lemma Collect_errorCounter: "errorCounter (snd (Collect c w)) = errorCounter w"
  by (cases c)
     (simp_all add: Collect_def gvCollect_def cvCollect_def cCollect_def Let_def
        sendAll_errorCounter send_def logAt_def)

lemma collectExtracted_errorCounter:
  "errorCounter (snd (stateOf (collectExtracted m ms w))) = errorCounter w"
proof (induction ms arbitrary: w)
  case Nil
  show ?case by (simp add: stateOf_def)
next
  case (Cons a ms)
  obtain cm f where a: "a = (cm, f)" by (cases a)
  show ?case
  proof (cases "f m cm")
    case (Returns r)
    obtain e cm' where r: "r = (e, cm')" by (cases r)
    show ?thesis
    proof (cases e)
      case None
      obtain cm'' w' where c: "Collect cm' w = (cm'', w')" by (cases "Collect cm' w")
      have "errorCounter w' = errorCounter w" using Collect_errorCounter[of cm' w] by (simp add: c)
      then show ?thesis
        by (simp add: a Returns r None c stateOf_mapOutcome split_beta Cons.IH)
    next
      case (Some err)
      then show ?thesis
        by (simp add: a Returns r chanRecv_def makeChan_def stateOf_def)
    qed
  next
    case (Panics msg r)
    then show ?thesis by (cases r) (simp add: a stateOf_def)
  next
    case (Blocks r)
    then show ?thesis by (cases r) (simp add: a stateOf_def)
  qed
qed

lemma collectExtracted_blocks:
  "(cm, f) \<in> set ms \<Longrightarrow> f m cm = Returns (Some err, cm') \<Longrightarrow>
   \<not> isReturns (collectExtracted m ms w)"
proof (induction ms arbitrary: w)
  case Nil
  then show ?case by simp
next
  case (Cons a ms)
  obtain cm0 f0 where a: "a = (cm0, f0)" by (cases a)
  show ?case
  proof (cases "f0 m cm0")
    case (Returns r)
    obtain e cm1 where r: "r = (e, cm1)" by (cases r)
    show ?thesis
    proof (cases e)
      case (Some err0)
      then show ?thesis
        by (simp add: a Returns r chanRecv_def makeChan_def isReturns_def)
    next
      case None
      with Cons.prems Returns r a have "(cm, f) \<in> set ms" by auto
      then have "\<And>w'. \<not> isReturns (collectExtracted m ms w')"
        using Cons.IH Cons.prems(2) by blast
      then show ?thesis
        by (simp add: a Returns r None isReturns_mapOutcome split: prod.split)
    qed
  next
    case (Panics msg r)
    then show ?thesis by (cases r) (simp add: a isReturns_def)
  next
    case (Blocks r)
    then show ?thesis by (cases r) (simp add: a isReturns_def)
  qed
qed

text \<open>
  Claim C1 is not what the code does. Whenever an extraction function returns an error,
  \<open>metricCollector.Collect\<close> does not return: the receive from the fresh descriptor
  channel never completes. The error counter stays as the fetch left it, so the error is
  never counted, and the log entry is never written.
\<close>

theorem metricCollector_Collect_blocks_on_error:
  assumes "(cm, f) \<in> set (mtMetrics c)" and "f m cm = Returns (Some err, cm')"
  shows "\<not> isReturns (metricCollector_Collect env (Decoded m) c w)
     \<and> errorCounter (snd (stateOf (metricCollector_Collect env (Decoded m) c w)))
         = errorCounter (snd (snd (fetchAndDecode env (Decoded m) ''/metrics/snapshot'' Map.empty w)))"
proof -
  obtain ok m' w1 where fd: "fetchAndDecode env (Decoded m) ''/metrics/snapshot'' Map.empty w = (ok, m', w1)"
    by (cases "fetchAndDecode env (Decoded m) ''/metrics/snapshot'' (Map.empty :: metricMap) w") auto
  have m': "m' = m" using fd by (simp add: fetchAndDecode_def)
  show ?thesis
    using collectExtracted_blocks[OF assms, of w1] collectExtracted_errorCounter[of m "mtMetrics c" w1]
    by (simp add: metricCollector_Collect_def fd m' isReturns_mapOutcome stateOf_mapOutcome split_beta)
qed

text \<open>
  Two metrics and a snapshot that lacks the key of \<open>uptime_seconds\<close>. Visited after
  \<open>elected\<close>, the failing function leaves the scrape blocked with the sample of
  \<open>elected\<close> sent, nothing counted and nothing logged about it; visited first, it keeps
  \<open>elected\<close> from running at all.
\<close>

theorem metricCollector_Collect_blocks_on_error_witness:
  "isBlocks (metricCollector_Collect env0 (Decoded snapshot1) (newMetricCollector [electedMetric, uptimeMetric]) world0)
   \<and> \<not> isReturns (metricCollector_Collect env0 (Decoded snapshot1) (newMetricCollector [electedMetric, uptimeMetric]) world0)
   \<and> out (snd (stateOf (metricCollector_Collect env0 (Decoded snapshot1) (newMetricCollector [electedMetric, uptimeMetric]) world0))) = [Some electedSample]
   \<and> errorCounter (snd (stateOf (metricCollector_Collect env0 (Decoded snapshot1) (newMetricCollector [electedMetric, uptimeMetric]) world0))) = 0
   \<and> logs (snd (stateOf (metricCollector_Collect env0 (Decoded snapshot1) (newMetricCollector [electedMetric, uptimeMetric]) world0))) = [(Debug, ''fetching URL'')]
   \<and> isBlocks (metricCollector_Collect env0 (Decoded snapshot1) (newMetricCollector [uptimeMetric, electedMetric]) world0)
   \<and> out (snd (stateOf (metricCollector_Collect env0 (Decoded snapshot1) (newMetricCollector [uptimeMetric, electedMetric]) world0))) = []"
proof -
  let ?c = "newMetricCollector [electedMetric, uptimeMetric]"
  let ?r = "metricCollector_Collect env0 (Decoded snapshot1) ?c world0"
  let ?r' = "metricCollector_Collect env0 (Decoded snapshot1) (newMetricCollector [uptimeMetric, electedMetric]) world0"
  have h1: "(fst uptimeMetric, snd uptimeMetric) \<in> set (mtMetrics ?c)"
    by (simp add: newMetricCollector_def)
  have h2: "snd uptimeMetric snapshot1 (fst uptimeMetric)
      = Returns (Some (ErrNotFoundInMap ''master/uptime_secs''), fst uptimeMetric)"
    by (simp add: uptimeMetric_def gaugeOf_def snapshot1_def)
  have b: "isBlocks ?r" by code_simp
  have o: "out (snd (stateOf ?r)) = [Some electedSample]" by code_simp
  have e: "errorCounter (snd (stateOf ?r)) = 0" by code_simp
  have l: "logs (snd (stateOf ?r)) = [(Debug, ''fetching URL'')]" by code_simp
  have b': "isBlocks ?r'" by code_simp
  have o': "out (snd (stateOf ?r')) = []" by code_simp
  show ?thesis
    using metricCollector_Collect_blocks_on_error[OF h1 h2, of env0 world0] b o e l b' o' by simp
qed

lemma sendAll_append: "sendAll (xs @ ys) w = sendAll ys (sendAll xs w)"
  by (induction xs arbitrary: w) simp_all

lemma fresh_labels:
  "length (variableLabels (gvDesc (NewGaugeVec ns sub name hlp slaveLabels))) = 4"
  by (simp add: NewGaugeVec_def NewDesc_def slaveLabels_def)

lemma fresh_one_node:
  "collectMetrics \<lparr>Slaves = [s]\<rparr> (map freshEntry specs) w
     = Returns (map (nodeEntry s) specs, sendAll (map (nodeSample s) specs) w)"
proof (induction specs arbitrary: w)
  case Nil
  show ?case by simp
next
  case (Cons spec specs)
  obtain name hlp f where spec: "spec = (name, hlp, f)" by (cases spec)
  let ?g = "NewGaugeVec ''mesos'' ''slave'' name hlp slaveLabels"
  let ?g' = "?g\<lparr>gvChildren := [(slaveLabelValues s, f s)]\<rparr>"
  have lv: "length (slaveLabelValues s) = 4" by (simp add: slaveLabelValues_def)
  have set1: "slaveGaugeSetter f \<lparr>Slaves = [s]\<rparr> (GaugeVecC ?g) = Returns (GaugeVecC ?g')"
    using fresh_labels[of "''mesos''" "''slave''" name hlp] lv
    by (simp add: slaveGaugeSetter_def mapOutcome_def gvSet_def NewGaugeVec_def)
  have col: "Collect (GaugeVecC ?g') w = (GaugeVecC ?g', send (Some (nodeSample s spec)) w)"
    by (simp add: Collect_def gvCollect_def gvSamples_def nodeSample_def spec NewGaugeVec_def)
  show ?case
    by (simp add: spec freshEntry_def nodeEntry_def set1 col[unfolded spec] Cons.IH[unfolded freshEntry_def nodeEntry_def]
        mapOutcome_def nodeSample_def)
qed

lemma node_no_state:
  "collectMetrics \<lparr>Slaves = []\<rparr> (map (nodeEntry s) specs) w
     = Returns (map (nodeEntry s) specs, sendAll (map (nodeSample s) specs) w)"
proof (induction specs arbitrary: w)
  case Nil
  show ?case by simp
next
  case (Cons spec specs)
  obtain name hlp f where spec: "spec = (name, hlp, f)" by (cases spec)
  let ?g = "NewGaugeVec ''mesos'' ''slave'' name hlp slaveLabels"
  let ?g' = "?g\<lparr>gvChildren := [(slaveLabelValues s, f s)]\<rparr>"
  have set1: "slaveGaugeSetter f \<lparr>Slaves = []\<rparr> (GaugeVecC ?g') = Returns (GaugeVecC ?g')"
    by (simp add: slaveGaugeSetter_def mapOutcome_def)
  have col: "Collect (GaugeVecC ?g') w = (GaugeVecC ?g', send (Some (nodeSample s spec)) w)"
    by (simp add: Collect_def gvCollect_def gvSamples_def nodeSample_def spec NewGaugeVec_def)
  show ?case
    by (simp add: spec nodeEntry_def set1 col[unfolded spec] Cons.IH[unfolded nodeEntry_def]
        mapOutcome_def nodeSample_def)
qed


lemma signingToken_out: "out (snd (signingToken env w)) = out w"
  by (simp add: signingToken_def Let_def setTokenExpire_def logAt_def split: option.split)

lemma signingToken_errorCounter: "errorCounter (snd (signingToken env w)) = errorCounter w"
  by (simp add: signingToken_def Let_def setTokenExpire_def logAt_def split: option.split)

lemma authToken_out: "out (snd (authToken env w)) = out w"
proof -
  obtain a w1 where st: "signingToken env w = (a, w1)" by (cases "signingToken env w")
  have "out w1 = out w" using signingToken_out[of env w] by (simp add: st)
  then show ?thesis
    by (cases "login env")
       (simp_all add: authToken_def st Let_def logAt_def errorCounterInc_def setToken_def)
qed

lemma authToken_errorCounter: "errorCounter w \<le> errorCounter (snd (authToken env w))"
proof -
  obtain a w1 where st: "signingToken env w = (a, w1)" by (cases "signingToken env w")
  have "errorCounter w1 = errorCounter w" using signingToken_errorCounter[of env w] by (simp add: st)
  then show ?thesis
    by (cases "login env")
       (simp_all add: authToken_def st Let_def logAt_def errorCounterInc_def setToken_def)
qed

lemma fetch_Decoded:
  "\<exists>w1. fetchAndDecode env (Decoded t) endpoint t0 w = (True, t, w1) \<and> out w1 = out w"
  by (simp add: fetchAndDecode_def beforeDo_def logAt_def authToken_out)

lemma fetch_DoFails:
  "\<exists>w1. fetchAndDecode env DoFails endpoint t0 w = (False, t0, w1) \<and> out w1 = out w
        \<and> errorCounter w < errorCounter w1"
  using authToken_errorCounter[of w env]
  by (simp add: fetchAndDecode_def beforeDo_def logAt_def authToken_out errorCounterInc_def)

lemma newMaster_fresh: "newMasterStateCollector [] = \<lparr>mcMetrics = map freshEntry slaveGauges\<rparr>"
proof -
  have "(\<lambda>(name, hlp, f). (GaugeVecC (NewGaugeVec ''mesos'' ''slave'' name hlp slaveLabels), slaveGaugeSetter f))
        = freshEntry"
    by (rule ext) (simp add: freshEntry_def)
  then show ?thesis by (simp add: newMasterStateCollector_def)
qed

lemma versionCollector_Collect_DoFails:
  "\<exists>w3. versionCollector_Collect fmt env DoFails v w = Returns (v, w3) \<and> out w3 = out w"
proof -
  obtain w1 where
    "fetchAndDecode env DoFails ''/version''
        \<lparr>BuildDate = [], BuildTime = 0, GitSHA = [], GitTag = [], Version = []\<rparr> w
       = (False, \<lparr>BuildDate = [], BuildTime = 0, GitSHA = [], GitTag = [], Version = []\<rparr>, w1)"
    "out w1 = out w"
    using fetch_DoFails[of env "''/version''"
        "\<lparr>BuildDate = [], BuildTime = 0, GitSHA = [], GitTag = [], Version = []\<rparr>" w]
    by auto
  then show ?thesis by (simp add: versionCollector_Collect_def)
qed

text \<open>
  Claim C2 is not what the master collector does. After a scrape that decoded a snapshot
  with one node, a scrape whose fetch fails returns and sends again the twelve samples of
  that node, from the children the gauges keep; the error counter rises. The version
  collector sends nothing when its fetch fails, and a grouped scrape in which both fetches
  fail consists of the twelve stale samples.
\<close>

theorem masterCollector_resends_after_failed_fetch:
  "\<exists>w1 w2 w3 w4.
     masterCollector_Collect env (Decoded \<lparr>Slaves = [s]\<rparr>) (newMasterStateCollector []) w
       = Returns (\<lparr>mcMetrics = map (nodeEntry s) slaveGauges\<rparr>, w1)
     \<and> out w1 = out w @ map Some (map (nodeSample s) slaveGauges)
     \<and> masterCollector_Collect env' DoFails \<lparr>mcMetrics = map (nodeEntry s) slaveGauges\<rparr> w'
       = Returns (\<lparr>mcMetrics = map (nodeEntry s) slaveGauges\<rparr>, w2)
     \<and> out w2 = out w' @ map Some (map (nodeSample s) slaveGauges)
     \<and> errorCounter w' < errorCounter w2
     \<and> length (map (nodeSample s) slaveGauges) = 12
     \<and> versionCollector_Collect fmt env' DoFails v w' = Returns (v, w3) \<and> out w3 = out w'
     \<and> collectMember
           \<lparr>authAnswers = env', stateAnswer = DoFails, snapshotAnswer = sa, versionAnswer = DoFails,
            sprintfF = fmt\<rparr>
           (newGroupedCollector [MasterM \<lparr>mcMetrics = map (nodeEntry s) slaveGauges\<rparr>, VersionM v]) w'
         = Returns (newGroupedCollector [MasterM \<lparr>mcMetrics = map (nodeEntry s) slaveGauges\<rparr>, VersionM v], w4)
     \<and> out w4 = out w' @ map Some (map (nodeSample s) slaveGauges)"
proof -
  let ?mc1 = "\<lparr>mcMetrics = map (nodeEntry s) slaveGauges\<rparr>"
  let ?stale = "map (nodeSample s) slaveGauges"
  obtain wa where fa: "fetchAndDecode env (Decoded \<lparr>Slaves = [s]\<rparr>) ''/state'' \<lparr>Slaves = []\<rparr> w
      = (True, \<lparr>Slaves = [s]\<rparr>, wa)" and oa: "out wa = out w"
    using fetch_Decoded[of env "\<lparr>Slaves = [s]\<rparr>" "''/state''" "\<lparr>Slaves = []\<rparr>" w] by auto
  have r1: "masterCollector_Collect env (Decoded \<lparr>Slaves = [s]\<rparr>) (newMasterStateCollector []) w
       = Returns (?mc1, sendAll ?stale wa)"
    by (simp add: masterCollector_Collect_def fa newMaster_fresh fresh_one_node mapOutcome_def)
  have o1: "out (sendAll ?stale wa) = out w @ map Some ?stale" by (simp add: sendAll_out oa)
  obtain wb where fb: "fetchAndDecode env' DoFails ''/state'' \<lparr>Slaves = []\<rparr> w'
      = (False, \<lparr>Slaves = []\<rparr>, wb)" and ob: "out wb = out w'" and eb: "errorCounter w' < errorCounter wb"
    using fetch_DoFails[of env' "''/state''" "\<lparr>Slaves = []\<rparr>" w'] by auto
  have r2: "masterCollector_Collect env' DoFails ?mc1 w' = Returns (?mc1, sendAll ?stale wb)"
    by (simp add: masterCollector_Collect_def fb node_no_state mapOutcome_def)
  have o2: "out (sendAll ?stale wb) = out w' @ map Some ?stale" by (simp add: sendAll_out ob)
  have e2: "errorCounter w' < errorCounter (sendAll ?stale wb)" using eb by (simp add: sendAll_errorCounter)
  have n: "length ?stale = 12" by (simp add: slaveGauges_def)
  obtain w3 where r3: "versionCollector_Collect fmt env' DoFails v w' = Returns (v, w3)" and o3: "out w3 = out w'"
    using versionCollector_Collect_DoFails[of fmt env' v w'] by auto
  obtain w4 where r4: "versionCollector_Collect fmt env' DoFails v (sendAll ?stale wb) = Returns (v, w4)"
    and o4: "out w4 = out (sendAll ?stale wb)"
    using versionCollector_Collect_DoFails[of fmt env' v "sendAll ?stale wb"] by auto
  have g: "collectMember
           \<lparr>authAnswers = env', stateAnswer = DoFails, snapshotAnswer = sa, versionAnswer = DoFails,
            sprintfF = fmt\<rparr>
           (newGroupedCollector [MasterM ?mc1, VersionM v]) w'
         = Returns (newGroupedCollector [MasterM ?mc1, VersionM v], w4)"
    by (simp add: newGroupedCollector_def r2 r4 mapOutcome_def)
  show ?thesis
    using r1 o1 r2 o2 e2 n r3 o3 g o4 by (metis (no_types))
qed

end
